theory Spec2Isabelle
  imports Complex_Main
begin

section \<open>Errors and strings\<close>

text \<open>
  The exceptions that the modelled functions of \<^verbatim>\<open>utils.py\<close> can raise.  The
  \<^verbatim>\<open>RuntimeError\<close> of \<^verbatim>\<open>find_outliers\<close> carries the tuple of the two particle
  indices that its message prints.
\<close>

datatype error = RuntimeError "nat \<times> nat" | TypeError | UnboundLocalError | ValueError | IndexError

text \<open>
  SMARTS patterns are ASCII strings and are modelled as \<^typ>\<open>string\<close>.  A bead name
  is built by \<^verbatim>\<open>chr\<close>, whose result is a Unicode code point that need not fit a
  byte, so a bead name is a list of code points.
\<close>

type_synonym label = "nat list"

section \<open>Coarse-graining: \<^verbatim>\<open>has_number\<close>, \<^verbatim>\<open>num2str\<close>, \<^verbatim>\<open>coarse\<close>\<close>

text \<open>\<^verbatim>\<open>re.search("[0-9]", string)\<close>: some character lies in the range from 0 to 9.\<close>

definition in_range_0_9 :: "char \<Rightarrow> bool" where
  "in_range_0_9 c = (of_char (CHR ''0'') \<le> (of_char c :: nat) \<and> (of_char c :: nat) \<le> of_char (CHR ''9''))"

definition has_number :: "string \<Rightarrow> bool" where
  "has_number s = list_ex in_range_0_9 s"

text \<open>\<^verbatim>\<open>has_common_member\<close> returns the intersection; the caller tests its truth value.\<close>

definition has_common_member :: "int set \<Rightarrow> int list \<Rightarrow> int set" where
  "has_common_member set_a tup = set_a \<inter> set tup"

text \<open>Python's \<^verbatim>\<open>chr\<close> raises \<^verbatim>\<open>ValueError\<close> beyond the last code point.\<close>

definition chr :: "nat \<Rightarrow> error + nat" where
  "chr n = (if n \<le> 1114111 then Inr n else Inl ValueError)"

definition num2str :: "nat \<Rightarrow> error + label" where
  "num2str num =
     (if num < 26 then
        (case chr (num + 65) of Inl e \<Rightarrow> Inl e | Inr c \<Rightarrow> Inr [c])
      else
        (case chr (num div 26 + 64) of
           Inl e \<Rightarrow> Inl e
         | Inr c1 \<Rightarrow>
             (case chr (num mod 26 + 65) of
                Inl e \<Rightarrow> Inl e
              | Inr c2 \<Rightarrow> Inr [c1, c2])))"

text \<open>
  A match is the tuple \<^verbatim>\<open>(group, smart_str, name)\<close> that \<^verbatim>\<open>coarse\<close> appends to
  \<^verbatim>\<open>matches\<close>: the atom indices, the SMARTS pattern, and the bead name.
\<close>

type_synonym match = "int list \<times> string \<times> label"

text \<open>
  The inner loop of the first part of \<^verbatim>\<open>coarse\<close>: the groups that the pattern
  number \<open>i\<close> matched (pybel counts atoms from one) become matches named
  \<^verbatim>\<open>f"_{num2str(i)}"\<close>.  The code point of the underscore is 95.
\<close>

fun group_matches :: "nat \<Rightarrow> string \<Rightarrow> int list list \<Rightarrow> error + match list" where
  "group_matches i smart_str [] = Inr []"
| "group_matches i smart_str (grp # groups) =
     (case num2str i of
        Inl e \<Rightarrow> Inl e
      | Inr s \<Rightarrow>
          (case group_matches i smart_str groups of
             Inl e \<Rightarrow> Inl e
           | Inr ms \<Rightarrow> Inr ((map (\<lambda>a. a - 1) grp, smart_str, 95 # s) # ms)))"

text \<open>
  The outer loop, \<^verbatim>\<open>for i, smart_str in enumerate(bead_smarts)\<close>.  The pattern
  matcher \<^verbatim>\<open>pybel.Smarts(smart_str).findall(mol)\<close> is a library function: its
  result on the molecule at hand is the parameter \<open>findall\<close>.
\<close>

fun find_matches :: "(string \<Rightarrow> int list list) \<Rightarrow> nat \<Rightarrow> string list \<Rightarrow> error + match list" where
  "find_matches findall i [] = Inr []"
| "find_matches findall i (smart_str # rest) =
     (case group_matches i smart_str (findall smart_str) of
        Inl e \<Rightarrow> Inl e
      | Inr ms \<Rightarrow>
          (case find_matches findall (Suc i) rest of
             Inl e \<Rightarrow> Inl e
           | Inr ms' \<Rightarrow> Inr (ms @ ms')))"

text \<open>
  The second loop of \<^verbatim>\<open>coarse\<close>, over \<^verbatim>\<open>matches\<close>, with the state
  \<^verbatim>\<open>(seen, bead_inds)\<close>.
\<close>

fun select_beads :: "match list \<Rightarrow> int set \<times> match list \<Rightarrow> int set \<times> match list" where
  "select_beads [] (seen, bead_inds) = (seen, bead_inds)"
| "select_beads ((grp, smarts, name) # matches) (seen, bead_inds) =
     (if has_number smarts then
        select_beads matches (seen \<union> set grp, bead_inds @ [(grp, smarts, name)])
      else if has_common_member seen grp \<noteq> {} then
        select_beads matches (seen, bead_inds)
      else
        select_beads matches (seen \<union> set grp, bead_inds @ [(grp, smarts, name)]))"

definition coarse_bead_inds :: "(string \<Rightarrow> int list list) \<Rightarrow> string list \<Rightarrow> error + match list" where
  "coarse_bead_inds findall bead_smarts =
     (case find_matches findall 0 bead_smarts of
        Inl e \<Rightarrow> Inl e
      | Inr matches \<Rightarrow> Inr (snd (select_beads matches ({}, []))))"


subsection \<open>\<^verbatim>\<open>cg_comp\<close> and \<^verbatim>\<open>cg_bonds\<close>\<close>

text \<open>
  The coarse-graining functions read and write the particle names and the bonds of the
  compound; this part of the model carries those two attributes (the list of names in
  the order of \<^verbatim>\<open>comp.particles()\<close>, and the bonds as pairs of particle indices).
  The positions of the beads are not part of it.
\<close>

record cg_compound =
  names :: "label list"
  cg_bond_list :: "(nat \<times> nat) list"

text \<open>
  Modelled from the spec: \<^verbatim>\<open>Compound.add_bond\<close> of the mbuild library, which this
  repository calls and does not contain.  The spec's data model has a bond as an
  unordered pair of particle indices, stored as \<open>(min, max)\<close>, in a bond graph that maps
  a particle to the set of its neighbours: adding a bond that is there changes nothing.
\<close>

definition add_bond :: "(nat \<times> nat) list \<Rightarrow> nat \<times> nat \<Rightarrow> (nat \<times> nat) list" where
  "add_bond bs e = List.insert (min (fst e) (snd e), max (fst e) (snd e)) bs"

text \<open>\<^verbatim>\<open>cg_comp\<close>: one particle per bead, appended; \<open>N\<close> is the number of particles before.\<close>

definition cg_comp :: "cg_compound \<Rightarrow> match list \<Rightarrow> cg_compound \<times> nat" where
  "cg_comp cmpd bead_inds =
     (cmpd\<lparr>names := names cmpd @ map (\<lambda>(bead, smarts, bead_name). bead_name) bead_inds\<rparr>,
      length (names cmpd))"

text \<open>The loop \<^verbatim>\<open>for pair in bonds\<close> of \<^verbatim>\<open>cg_bonds\<close>, for one pair of beads.\<close>

fun pair_loop :: "(nat \<times> nat) list \<Rightarrow> int list \<Rightarrow> int list \<Rightarrow> nat \<times> nat \<Rightarrow> (nat \<times> nat) list" where
  "pair_loop [] bead_i bead_j e = []"
| "pair_loop (pair # bonds) bead_i bead_j e =
     (if int (fst pair) \<in> set bead_i \<and> int (snd pair) \<in> set bead_j then [e] else []) @
     (if int (snd pair) \<in> set bead_i \<and> int (fst pair) \<in> set bead_j then [e] else []) @
     pair_loop bonds bead_i bead_j e"

text \<open>\<^verbatim>\<open>for j, (bead_j, _, _) in enumerate(beads[(i + 1):])\<close>.\<close>

fun j_loop :: "(nat \<times> nat) list \<Rightarrow> nat \<Rightarrow> int list \<Rightarrow> nat \<Rightarrow> match list \<Rightarrow> (nat \<times> nat) list" where
  "j_loop bonds i bead_i j [] = []"
| "j_loop bonds i bead_i j ((bead_j, smarts, name) # rest) =
     pair_loop bonds bead_i bead_j (i, j + i + 1) @ j_loop bonds i bead_i (Suc j) rest"

text \<open>\<^verbatim>\<open>for i, (bead_i, _, _) in enumerate(beads[:-1])\<close>: the list \<^verbatim>\<open>bead_bonds\<close>.\<close>

definition bead_bonds :: "(nat \<times> nat) list \<Rightarrow> match list \<Rightarrow> (nat \<times> nat) list" where
  "bead_bonds bonds beads =
     concat (map (\<lambda>i. j_loop bonds i (fst (beads ! i)) 0 (drop (i + 1) beads))
       [0 ..< length beads - 1])"

text \<open>
  The second loop of \<^verbatim>\<open>cg_bonds\<close>: \<^verbatim>\<open>bond_pair\<close> holds the particles whose index is
  \<^verbatim>\<open>pair[0] + N\<close> or \<^verbatim>\<open>pair[1] + N\<close>; \<^verbatim>\<open>add_bond\<close> reads its first two entries and
  raises \<^verbatim>\<open>IndexError\<close> when there are fewer.
\<close>

fun add_bead_bonds :: "nat \<Rightarrow> nat \<Rightarrow> (nat \<times> nat) list \<Rightarrow> (nat \<times> nat) list \<Rightarrow> error + (nat \<times> nat) list" where
  "add_bead_bonds n N [] bs = Inr bs"
| "add_bead_bonds n N (pair # pairs) bs =
     (case filter (\<lambda>i. i = fst pair + N \<or> i = snd pair + N) [0 ..< n] of
        p # q # rest \<Rightarrow> add_bead_bonds n N pairs (add_bond bs (p, q))
      | _ \<Rightarrow> Inl IndexError)"

definition cg_bonds :: "cg_compound \<Rightarrow> match list \<Rightarrow> nat \<Rightarrow> error + cg_compound" where
  "cg_bonds cmpd beads N =
     (case add_bead_bonds (length (names cmpd)) N (bead_bonds (cg_bond_list cmpd) beads)
             (cg_bond_list cmpd) of
        Inl e \<Rightarrow> Inl e
      | Inr bs \<Rightarrow> Inr (cmpd\<lparr>cg_bond_list := bs\<rparr>))"

section \<open>Molecules of a snapshot: \<^verbatim>\<open>get_molecules\<close>\<close>

text \<open>
  A Python set that is iterated or popped is a list without repetitions; a
  \<^verbatim>\<open>defaultdict(set)\<close> is an association list in the order of insertion of its keys,
  and a missing key reads as the empty set.  \<^verbatim>\<open>set.pop()\<close> removes and returns an
  arbitrary element: the model takes the first of the list.
\<close>

type_synonym graph = "(nat \<times> nat list) list"

fun graph_add :: "graph \<Rightarrow> nat \<Rightarrow> nat \<Rightarrow> graph" where
  "graph_add [] k v = [(k, [v])]"
| "graph_add ((k', vs) # g) k v =
     (if k' = k then (k', List.insert v vs) # g else (k', vs) # graph_add g k v)"

definition graph_get :: "graph \<Rightarrow> nat \<Rightarrow> nat list" where
  "graph_get g k = (case map_of g k of None \<Rightarrow> [] | Some vs \<Rightarrow> vs)"

record snapshot =
  particles_N :: nat
  bonds_group :: "(nat \<times> nat) list"

definition snap_bond_graph :: "(nat \<times> nat) list \<Rightarrow> graph" where
  "snap_bond_graph bond_array =
     fold (\<lambda>row g. graph_add (graph_add g (fst row) (snd row)) (snd row) (fst row)) bond_array []"

definition graph_nodes :: "graph \<Rightarrow> nat set" where
  "graph_nodes g = fst ` set g \<union> (\<Union>kv \<in> set g. set (snd kv))"

function get_connected_group :: "graph \<Rightarrow> nat list \<Rightarrow> nat set \<Rightarrow> nat list \<Rightarrow> nat list \<times> nat set" where
  "get_connected_group graph [] already_seen result = (result, already_seen)"
| "get_connected_group graph (node # nodes) already_seen result =
     get_connected_group graph
       (List.union [n \<leftarrow> graph_get graph node. n \<notin> insert node already_seen] (removeAll node nodes))
       (insert node already_seen)
       (List.insert node result)"
  by pat_completeness auto


text \<open>
  The loop ends: a node that is popped either was seen (and leaves the work list for
  good) or becomes seen (and the unseen nodes of the graph are finitely many).
\<close>

lemma graph_get_subset: "set (graph_get g k) \<subseteq> graph_nodes g"
proof
  fix x assume "x \<in> set (graph_get g k)"
  then obtain vs where "map_of g k = Some vs" "x \<in> set vs"
    by (cases "map_of g k") (auto simp: graph_get_def)
  then have "(k, vs) \<in> set g" by (auto dest: map_of_SomeD)
  with \<open>x \<in> set vs\<close> show "x \<in> graph_nodes g"
    unfolding graph_nodes_def by force
qed

lemma worklist_measure_seen:
  fixes U U' S A A' :: "nat set"
  assumes "finite U" "finite A" "U' \<subseteq> U" "x \<in> S" "x \<in> A" "A' \<inter> S \<subseteq> (A \<inter> S) - {x}"
  shows "card (A' \<inter> S) + 2 * card (U' - S) < card (A \<inter> S) + 2 * card (U - S)"
proof -
  have "card (A' \<inter> S) < card (A \<inter> S)"
    using assms by (intro psubset_card_mono) auto
  moreover have "card (U' - S) \<le> card (U - S)"
    using assms by (intro card_mono) auto
  ultimately show ?thesis by simp
qed

lemma worklist_measure_new:
  fixes U U' S A A' :: "nat set"
  assumes "finite U" "finite A" "U' \<subseteq> U" "x \<notin> S" "x \<in> U"
    "A' \<inter> insert x S \<subseteq> insert x (A \<inter> S)"
  shows "card (A' \<inter> insert x S) + 2 * card (U' - insert x S) < card (A \<inter> S) + 2 * card (U - S)"
proof -
  have "card (A' \<inter> insert x S) \<le> card (insert x (A \<inter> S))"
    using assms by (intro card_mono) auto
  then have 1: "card (A' \<inter> insert x S) \<le> card (A \<inter> S) + 1"
    using assms by (simp add: card_insert_if split: if_splits)
  have "card (U' - insert x S) < card (U - S)"
    using assms by (intro psubset_card_mono) auto
  with 1 show ?thesis by simp
qed

termination get_connected_group
proof (relation "measure (\<lambda>(g, nodes, seen, res).
     card (set nodes \<inter> seen) + 2 * card ((set nodes \<union> graph_nodes g) - seen))")
  show "wf (measure (\<lambda>(g, nodes, seen, res).
     card (set nodes \<inter> seen) + 2 * card ((set nodes \<union> graph_nodes g) - seen)))" by simp
next
  fix graph :: graph and node nodes already_seen and result :: "nat list"
  let ?new = "[n \<leftarrow> graph_get graph node. n \<notin> insert node already_seen]"
  let ?nodes' = "List.union ?new (removeAll node nodes)"
  have fin: "finite (set (node # nodes) \<union> graph_nodes graph)"
    by (simp add: graph_nodes_def)
  have sub: "set ?nodes' \<union> graph_nodes graph \<subseteq> set (node # nodes) \<union> graph_nodes graph"
    using graph_get_subset[of graph node] by auto
  show "((graph, ?nodes', insert node already_seen, List.insert node result),
         (graph, node # nodes, already_seen, result)) \<in> measure (\<lambda>(g, nodes, seen, res).
     card (set nodes \<inter> seen) + 2 * card ((set nodes \<union> graph_nodes g) - seen))"
  proof (cases "node \<in> already_seen")
    case True
    then have eq: "insert node already_seen = already_seen" by auto
    show ?thesis
      unfolding in_measure prod.case eq
      by (rule worklist_measure_seen[where x = node, OF fin _ sub[unfolded eq] True]) auto
  next
    case False
    show ?thesis
      unfolding in_measure prod.case
      by (rule worklist_measure_new[where x = node, OF fin _ sub False]) auto
  qed
qed

text \<open>The loop \<^verbatim>\<open>for node in graph\<close> of \<^verbatim>\<open>get_molecules\<close>, over the keys of the graph.\<close>

fun molecules_loop :: "graph \<Rightarrow> nat list \<Rightarrow> nat set \<Rightarrow> nat list list \<Rightarrow> nat list list" where
  "molecules_loop graph [] already_seen result = result"
| "molecules_loop graph (node # keys) already_seen result =
     (if node \<notin> already_seen then
        (case get_connected_group graph [node] already_seen [] of
           (connected_group, already_seen') \<Rightarrow>
             molecules_loop graph keys already_seen' (result @ [connected_group]))
      else molecules_loop graph keys already_seen result)"

definition get_molecules :: "snapshot \<Rightarrow> nat list list" where
  "get_molecules snap =
     (let graph = snap_bond_graph (bonds_group snap)
      in molecules_loop graph (map fst graph) {} [])"

section \<open>Periodic boundaries: \<^verbatim>\<open>CG_Compound.wrap\<close> and \<^verbatim>\<open>CG_Compound.unwrap\<close>\<close>

text \<open>
  Positions are vectors of three numbers.  The numbers are real numbers: the model
  computes with exact arithmetic where the program computes with floating point
  numbers.  The one floating point value that the model keeps is \<^verbatim>\<open>nan\<close>, the mean
  of an empty array, as \<^const>\<open>None\<close>; every comparison with it is false.
\<close>

type_synonym vec = "real \<times> real \<times> real"

definition vsub :: "vec \<Rightarrow> vec \<Rightarrow> vec" where
  "vsub p q = (case p of (px, py, pz) \<Rightarrow> case q of (qx, qy, qz) \<Rightarrow> (px - qx, py - qy, pz - qz))"

definition vadd :: "vec \<Rightarrow> vec \<Rightarrow> vec" where
  "vadd p q = (case p of (px, py, pz) \<Rightarrow> case q of (qx, qy, qz) \<Rightarrow> (px + qx, py + qy, pz + qz))"

definition vscale :: "real \<Rightarrow> vec \<Rightarrow> vec" where
  "vscale k p = (case p of (px, py, pz) \<Rightarrow> (k * px, k * py, k * pz))"

definition norm3 :: "vec \<Rightarrow> real" where
  "norm3 p = (case p of (px, py, pz) \<Rightarrow> sqrt (px\<^sup>2 + py\<^sup>2 + pz\<^sup>2))"

text \<open>\<^verbatim>\<open>distance\<close> and \<^verbatim>\<open>v_distance\<close>: \<^verbatim>\<open>np.linalg.norm\<close> of the difference.\<close>

definition distance :: "vec \<Rightarrow> vec \<Rightarrow> real" where
  "distance pos1 pos2 = norm3 (vsub pos1 pos2)"

definition v_distance :: "vec list \<Rightarrow> vec \<Rightarrow> real list" where
  "v_distance pos_array pos2 = map (\<lambda>p. norm3 (vsub p pos2)) pos_array"

text \<open>\<^verbatim>\<open>np.mean(a, axis=0)\<close> of an array of positions, and \<^verbatim>\<open>np.mean\<close> of an array of numbers.\<close>

definition mean_vec :: "vec list \<Rightarrow> vec option" where
  "mean_vec ps = (if ps = [] then None else Some (vscale (1 / real (length ps)) (foldr vadd ps (0, 0, 0))))"

definition mean_real :: "real list \<Rightarrow> real option" where
  "mean_real xs = (if xs = [] then None else Some (sum_list xs / real (length xs)))"

text \<open>\<^verbatim>\<open>a > b\<close> on floating point numbers that may be \<^verbatim>\<open>nan\<close>.\<close>

fun gt_nan :: "real option \<Rightarrow> real option \<Rightarrow> bool" where
  "gt_nan (Some a) (Some b) = (a > b)"
| "gt_nan a b = False"

text \<open>
  A compound, as \<^verbatim>\<open>wrap\<close> and \<^verbatim>\<open>unwrap\<close> read it: the positions of its particles
  in the order of \<^verbatim>\<open>self.particles()\<close>, its bonds as pairs of particle indices, and its
  box (\<^verbatim>\<open>None\<close> until it is assigned).
\<close>

record compound =
  xyz :: "vec list"
  bonds :: "(nat \<times> nat) list"
  box :: "vec option"

datatype message = NoBondsLonger | TryingAgain int | LimitExceeded | CantWrap

datatype outcome = Returned | Raised error

text \<open>\<^verbatim>\<open>bond_dict\<close>: the neighbours of every bonded particle.\<close>

definition bond_dict :: "compound \<Rightarrow> graph" where
  "bond_dict c =
     fold (\<lambda>bond g. graph_add (graph_add g (fst bond) (snd bond)) (snd bond) (fst bond)) (bonds c) []"

text \<open>\<^verbatim>\<open>check_bad_bonds\<close>: the bonds longer than the tolerance.\<close>

definition check_bad_bonds :: "real \<Rightarrow> compound \<Rightarrow> (nat \<times> nat) list" where
  "check_bad_bonds d_tolerance c =
     [bond \<leftarrow> bonds c. distance (xyz c ! fst bond) (xyz c ! snd bond) > d_tolerance]"

text \<open>
  The mean distance of the particles of a molecule to their centre, as
  \<^verbatim>\<open>_is_outlier\<close> computes it twice: \<^verbatim>\<open>np.mean(v_distance(a, np.mean(a, axis=0)))\<close>.
\<close>

definition avg_dist :: "vec list \<Rightarrow> nat list \<Rightarrow> real option" where
  "avg_dist ps molecule =
     (case mean_vec (map ((!) ps) molecule) of
        None \<Rightarrow> None
      | Some center \<Rightarrow> mean_real (v_distance (map ((!) ps) molecule) center))"

text \<open>
  \<^verbatim>\<open>_is_outlier\<close> and \<^verbatim>\<open>_d_to_center\<close> loop over all molecules and return what they
  computed for the last one that holds the index; when no molecule holds it the
  returned variable was never assigned.  They are computed here in exact arithmetic;
  the loop that reads their results is also given with the results as parameters
  (\<open>classify_with\<close> below), for what holds of the results as the program measures
  them.  The list of molecules is the result of
  \<^verbatim>\<open>self.get_molecules()\<close>, which maps the connected components that the mbuild
  library reports to particle indices: it is the parameter \<open>molecules\<close>.
\<close>

definition is_outlier :: "nat list list \<Rightarrow> vec list \<Rightarrow> nat \<Rightarrow> error + bool" where
  "is_outlier molecules ps index =
     (case [m \<leftarrow> molecules. index \<in> set m] of
        [] \<Rightarrow> Inl UnboundLocalError
      | ms \<Rightarrow> Inr (gt_nan (avg_dist ps (last ms)) (avg_dist ps (removeAll index (last ms)))))"

definition d_to_center :: "nat list list \<Rightarrow> vec list \<Rightarrow> nat \<Rightarrow> error + real option" where
  "d_to_center molecules ps index =
     (case [m \<leftarrow> molecules. index \<in> set m] of
        [] \<Rightarrow> Inl UnboundLocalError
      | ms \<Rightarrow> Inr (map_option (distance (ps ! index)) (mean_vec (map ((!) ps) (last ms)))))"


text \<open>
  The first loop of \<^verbatim>\<open>find_outliers\<close>, over the bad bonds, with the state
  \<^verbatim>\<open>(outliers, checked)\<close>.  The conditions of the \<^verbatim>\<open>if\<close> and of its \<^verbatim>\<open>elif\<close>
  branches call \<^verbatim>\<open>_is_outlier\<close> on the first index and then, on every path, on the
  second.
\<close>

fun classify :: "nat list list \<Rightarrow> vec list \<Rightarrow> (nat \<times> nat) list \<Rightarrow> nat list \<times> nat set
    \<Rightarrow> error + (nat list \<times> nat set)" where
  "classify molecules ps [] (outliers, checked) = Inr (outliers, checked)"
| "classify molecules ps (tup # rest) (outliers, checked) =
     (case is_outlier molecules ps (fst tup) of
        Inl e \<Rightarrow> Inl e
      | Inr o0 \<Rightarrow>
     (case is_outlier molecules ps (snd tup) of
        Inl e \<Rightarrow> Inl e
      | Inr o1 \<Rightarrow>
          if o0 \<and> o1 then
            (case d_to_center molecules ps (fst tup) of
               Inl e \<Rightarrow> Inl e
             | Inr d_0 \<Rightarrow>
            (case d_to_center molecules ps (snd tup) of
               Inl e \<Rightarrow> Inl e
             | Inr d_1 \<Rightarrow>
                 if gt_nan d_0 d_1 then
                   classify molecules ps rest
                     (List.insert (fst tup) outliers, insert (snd tup) (insert (fst tup) checked))
                 else if gt_nan d_1 d_0 then
                   classify molecules ps rest
                     (List.insert (snd tup) outliers, insert (snd tup) (insert (fst tup) checked))
                 else Inl (RuntimeError tup)))
          else if o0 then
            classify molecules ps rest
              (List.insert (fst tup) outliers, insert (snd tup) (insert (fst tup) checked))
          else if o1 then
            classify molecules ps rest
              (List.insert (snd tup) outliers, insert (snd tup) (insert (fst tup) checked))
          else
            classify molecules ps rest
              (outliers, insert (snd tup) (insert (fst tup) checked))))"

text \<open>
  The second loop of \<^verbatim>\<open>find_outliers\<close>, \<^verbatim>\<open>while starts\<close>: the particles bonded to
  an outlier and not checked become outliers.
\<close>

function propagate :: "graph \<Rightarrow> nat list \<Rightarrow> nat list \<Rightarrow> nat set \<Rightarrow> nat list" where
  "propagate bd [] outliers checked = outliers"
| "propagate bd (index # starts) outliers checked =
     propagate bd
       (List.union [n \<leftarrow> graph_get bd index. n \<notin> checked] (removeAll index starts))
       (List.union [n \<leftarrow> graph_get bd index. n \<notin> checked] outliers)
       (insert index checked)"
  by pat_completeness auto

termination propagate
proof (relation "measure (\<lambda>(g, starts, outs, chk).
     card (set starts \<inter> chk) + 2 * card ((set starts \<union> graph_nodes g) - chk))")
  show "wf (measure (\<lambda>(g, starts, outs, chk).
     card (set starts \<inter> chk) + 2 * card ((set starts \<union> graph_nodes g) - chk)))" by simp
next
  fix bd :: graph and index starts checked and outliers :: "nat list"
  let ?new = "[n \<leftarrow> graph_get bd index. n \<notin> checked]"
  let ?starts' = "List.union ?new (removeAll index starts)"
  have fin: "finite (set (index # starts) \<union> graph_nodes bd)"
    by (simp add: graph_nodes_def)
  have sub: "set ?starts' \<union> graph_nodes bd \<subseteq> set (index # starts) \<union> graph_nodes bd"
    using graph_get_subset[of bd index] by auto
  show "((bd, ?starts', List.union ?new outliers, insert index checked),
         (bd, index # starts, outliers, checked)) \<in> measure (\<lambda>(g, starts, outs, chk).
     card (set starts \<inter> chk) + 2 * card ((set starts \<union> graph_nodes g) - chk))"
  proof (cases "index \<in> checked")
    case True
    then have eq: "insert index checked = checked" by auto
    show ?thesis
      unfolding in_measure prod.case eq
      by (rule worklist_measure_seen[where x = index, OF fin _ sub[unfolded eq] True]) auto
  next
    case False
    show ?thesis
      unfolding in_measure prod.case
      by (rule worklist_measure_new[where x = index, OF fin _ sub False]) auto
  qed
qed

definition find_outliers :: "nat list list \<Rightarrow> compound \<Rightarrow> (nat \<times> nat) list \<Rightarrow> error + nat list" where
  "find_outliers molecules c maybe_outliers =
     (case classify molecules (xyz c) maybe_outliers ([], {}) of
        Inl e \<Rightarrow> Inl e
      | Inr (outliers, checked) \<Rightarrow> Inr (propagate (bond_dict c) outliers outliers checked))"

text \<open>
  \<^verbatim>\<open>outlier_dict\<close>: every outlier is filed under the index of the first molecule that
  holds it; an outlier that no molecule holds is left out.
\<close>

definition outlier_dict :: "nat list list \<Rightarrow> nat list \<Rightarrow> graph" where
  "outlier_dict molecules outliers =
     fold (\<lambda>outlier d.
             case [i \<leftarrow> [0 ..< length molecules]. outlier \<in> set (molecules ! i)] of
               [] \<Rightarrow> d
             | mol_ind # others \<Rightarrow> graph_add d mol_ind outlier)
       outliers []"

text \<open>
  One axis of \<^verbatim>\<open>np.where(image > self.box / 2, 1, 0) + np.where(image < -self.box / 2, -1, 0)\<close>,
  and the whole image vector of an outlier; the centre \<^verbatim>\<open>mol_avg\<close> is \<^verbatim>\<open>nan\<close> when
  every particle of the molecule is an outlier.
\<close>

definition img_axis :: "real \<Rightarrow> real \<Rightarrow> int" where
  "img_axis d L = (if d > L / 2 then 1 else 0) + (if d < - L / 2 then - 1 else 0)"

definition img_of :: "vec \<Rightarrow> vec option \<Rightarrow> vec \<Rightarrow> int \<times> int \<times> int" where
  "img_of L mol_avg pos =
     (case mol_avg of
        None \<Rightarrow> (0, 0, 0)
      | Some center \<Rightarrow>
          (case vsub center pos of (ix, iy, iz) \<Rightarrow>
           case L of (Lx, Ly, Lz) \<Rightarrow> (img_axis ix Lx, img_axis iy Ly, img_axis iz Lz)))"

text \<open>
  Modelled from the spec: \<^verbatim>\<open>freud.box.Box.unwrap\<close> and \<^verbatim>\<open>freud.box.Box.wrap\<close> of
  the freud library, which this repository calls and does not contain.  By the spec,
  \<^verbatim>\<open>unwrap(point, image)\<close> returns \<open>point + image \<odot> box_lengths\<close>, and
  \<^verbatim>\<open>wrap(point)\<close> maps a point into the primary cell \<open>[-L/2, L/2)\<close> on every axis.
\<close>

definition box_unwrap :: "vec \<Rightarrow> vec \<Rightarrow> int \<times> int \<times> int \<Rightarrow> vec" where
  "box_unwrap L pos img =
     (case L of (Lx, Ly, Lz) \<Rightarrow> case pos of (px, py, pz) \<Rightarrow> case img of (ix, iy, iz) \<Rightarrow>
        (px + real_of_int ix * Lx, py + real_of_int iy * Ly, pz + real_of_int iz * Lz))"

definition wrap_axis :: "real \<Rightarrow> real \<Rightarrow> real" where
  "wrap_axis L x = x - L * real_of_int \<lfloor>x / L + 1 / 2\<rfloor>"

definition box_wrap :: "vec \<Rightarrow> vec \<Rightarrow> vec" where
  "box_wrap L pos =
     (case L of (Lx, Ly, Lz) \<Rightarrow> case pos of (px, py, pz) \<Rightarrow>
        (wrap_axis Lx px, wrap_axis Ly py, wrap_axis Lz pz))"

text \<open>The loop \<^verbatim>\<open>for outlier in outlier_dict[mol_ind]\<close>: every outlier moves to its image.\<close>

fun move_outliers :: "vec \<Rightarrow> vec option \<Rightarrow> nat list \<Rightarrow> vec list \<Rightarrow> vec list" where
  "move_outliers L mol_avg [] ps = ps"
| "move_outliers L mol_avg (outlier # rest) ps =
     move_outliers L mol_avg rest
       (ps[outlier := box_unwrap L (ps ! outlier) (img_of L mol_avg (ps ! outlier))])"

text \<open>
  The loop \<^verbatim>\<open>for mol_ind in outlier_dict\<close>.  \<^verbatim>\<open>freud.box.Box(*list(self.box))\<close> raises
  \<^verbatim>\<open>TypeError\<close> when the box is \<^verbatim>\<open>None\<close>, and nothing catches it.
\<close>

fun relocate :: "nat list list \<Rightarrow> vec option \<Rightarrow> graph \<Rightarrow> vec list \<Rightarrow> error + vec list" where
  "relocate molecules bx [] ps = Inr ps"
| "relocate molecules bx ((mol_ind, outs) # rest) ps =
     (let molecule = [i \<leftarrow> molecules ! mol_ind. i \<notin> set outs];
          mol_avg = mean_vec (map ((!) ps) molecule)
      in case bx of
           None \<Rightarrow> Inl TypeError
         | Some L \<Rightarrow> relocate molecules bx rest (move_outliers L mol_avg outs ps))"

text \<open>One pass of \<^verbatim>\<open>unwrap\<close> over a compound with bad bonds: classify, propagate, relocate.\<close>

definition unwrap_pass :: "nat list list \<Rightarrow> compound \<Rightarrow> (nat \<times> nat) list \<Rightarrow> error + compound" where
  "unwrap_pass molecules c maybe_outliers =
     (case find_outliers molecules c maybe_outliers of
        Inl e \<Rightarrow> Inl e
      | Inr outliers \<Rightarrow>
          (case relocate molecules (box c) (outlier_dict molecules outliers) (xyz c) of
             Inl e \<Rightarrow> Inl e
           | Inr ps \<Rightarrow> Inr (c\<lparr>xyz := ps\<rparr>)))"

text \<open>
  \<^verbatim>\<open>unwrap\<close>.  The result is how the call ended, the compound as the call left it
  (the particles are moved in place, so an exception leaves the compound as it was at
  the start of the pass that raised), and the messages printed.
\<close>

function unwrap :: "nat list list \<Rightarrow> real \<Rightarrow> int \<Rightarrow> compound \<Rightarrow> outcome \<times> compound \<times> message list" where
  "unwrap molecules d_tolerance count c =
     (if check_bad_bonds d_tolerance c = [] then (Returned, c, [NoBondsLonger])
      else
        (case unwrap_pass molecules c (check_bad_bonds d_tolerance c) of
           Inl e \<Rightarrow> (Raised e, c, [])
         | Inr c' \<Rightarrow>
             if check_bad_bonds d_tolerance c' \<noteq> [] then
               (if count < 5 then
                  (case unwrap molecules d_tolerance (count + 1) c' of
                     (out, c'', msgs) \<Rightarrow> (out, c'', TryingAgain (count + 1) # msgs))
                else (Returned, c', [LimitExceeded]))
             else (Returned, c', [])))"
  by pat_completeness auto

termination unwrap
  by (relation "measure (\<lambda>(molecules, d_tolerance, count, c). nat (5 - count))") auto

text \<open>
  \<^verbatim>\<open>wrap\<close>.  The rows of \<^verbatim>\<open>np.argwhere(abs(self.xyz) > self.box / 2)[:, 0]\<close>: a row
  index once for every coordinate of the row that is out of the box.
\<close>

definition out_of_box_rows :: "vec \<Rightarrow> vec list \<Rightarrow> nat list" where
  "out_of_box_rows L ps =
     concat (map (\<lambda>row.
        case ps ! row of (px, py, pz) \<Rightarrow> case L of (Lx, Ly, Lz) \<Rightarrow>
          (if \<bar>px\<bar> > Lx / 2 then [row] else []) @
          (if \<bar>py\<bar> > Ly / 2 then [row] else []) @
          (if \<bar>pz\<bar> > Lz / 2 then [row] else []))
       [0 ..< length ps])"

definition wrap :: "compound \<Rightarrow> compound \<times> message list" where
  "wrap c =
     (case box c of
        None \<Rightarrow> (c, [CantWrap])
      | Some L \<Rightarrow>
          (c\<lparr>xyz := fold (\<lambda>row ps. ps[row := box_wrap L (ps ! row)]) (out_of_box_rows L (xyz c)) (xyz c)\<rparr>,
           []))"


section \<open>\<^verbatim>\<open>unwrap\<close> with its measurements as parameters\<close>

text \<open>
  \<^verbatim>\<open>_is_outlier\<close> and \<^verbatim>\<open>_d_to_center\<close> return floating point results, which
  \<^const>\<open>is_outlier\<close> and \<^const>\<open>d_to_center\<close> give in exact arithmetic; the two need
  not agree on whether two distances are equal.  What the loops of \<^verbatim>\<open>unwrap\<close> do
  with the results does not depend on how they were computed, so the loops are also
  given with the results as parameters: \<open>is_out index\<close> is what
  \<^verbatim>\<open>_is_outlier(index)\<close> returned and \<open>d_center index\<close> is what
  \<^verbatim>\<open>_d_to_center(index)\<close> returned, a number or \<^verbatim>\<open>nan\<close>.

  The first loop of \<^verbatim>\<open>find_outliers\<close>, over the bad bonds.
\<close>

fun classify_with :: "(nat \<Rightarrow> error + bool) \<Rightarrow> (nat \<Rightarrow> error + real option) \<Rightarrow> (nat \<times> nat) list
    \<Rightarrow> nat list \<times> nat set \<Rightarrow> error + (nat list \<times> nat set)" where
  "classify_with is_out d_center [] (outliers, checked) = Inr (outliers, checked)"
| "classify_with is_out d_center (tup # rest) (outliers, checked) =
     (case is_out (fst tup) of
        Inl e \<Rightarrow> Inl e
      | Inr o0 \<Rightarrow>
     (case is_out (snd tup) of
        Inl e \<Rightarrow> Inl e
      | Inr o1 \<Rightarrow>
          if o0 \<and> o1 then
            (case d_center (fst tup) of
               Inl e \<Rightarrow> Inl e
             | Inr d_0 \<Rightarrow>
            (case d_center (snd tup) of
               Inl e \<Rightarrow> Inl e
             | Inr d_1 \<Rightarrow>
                 if gt_nan d_0 d_1 then
                   classify_with is_out d_center rest
                     (List.insert (fst tup) outliers, insert (snd tup) (insert (fst tup) checked))
                 else if gt_nan d_1 d_0 then
                   classify_with is_out d_center rest
                     (List.insert (snd tup) outliers, insert (snd tup) (insert (fst tup) checked))
                 else Inl (RuntimeError tup)))
          else if o0 then
            classify_with is_out d_center rest
              (List.insert (fst tup) outliers, insert (snd tup) (insert (fst tup) checked))
          else if o1 then
            classify_with is_out d_center rest
              (List.insert (snd tup) outliers, insert (snd tup) (insert (fst tup) checked))
          else
            classify_with is_out d_center rest
              (outliers, insert (snd tup) (insert (fst tup) checked))))"

text \<open>\<^verbatim>\<open>find_outliers\<close>: the first loop, then the loop \<^verbatim>\<open>while starts\<close> over \<^verbatim>\<open>bond_dict\<close>.\<close>

definition find_outliers_with :: "(nat \<Rightarrow> error + bool) \<Rightarrow> (nat \<Rightarrow> error + real option) \<Rightarrow> graph
    \<Rightarrow> (nat \<times> nat) list \<Rightarrow> error + nat list" where
  "find_outliers_with is_out d_center bd maybe_outliers =
     (case classify_with is_out d_center maybe_outliers ([], {}) of
        Inl e \<Rightarrow> Inl e
      | Inr (outliers, checked) \<Rightarrow> Inr (propagate bd outliers outliers checked))"

text \<open>
  The part of \<^verbatim>\<open>unwrap\<close> after \<^verbatim>\<open>find_outliers\<close>: the outliers are filed by
  molecule and moved.
\<close>

definition relocate_outliers :: "nat list list \<Rightarrow> compound \<Rightarrow> nat list \<Rightarrow> error + compound" where
  "relocate_outliers molecules c outliers =
     (case relocate molecules (box c) (outlier_dict molecules outliers) (xyz c) of
        Inl e \<Rightarrow> Inl e
      | Inr ps \<Rightarrow> Inr (c\<lparr>xyz := ps\<rparr>))"

text \<open>
  The body of \<^verbatim>\<open>unwrap\<close> with its three phases as parameters: \<open>scan c\<close> is what
  \<^verbatim>\<open>check_bad_bonds(self)\<close> returns on the compound \<open>c\<close>, \<open>find c\<close> is
  \<^verbatim>\<open>find_outliers\<close> on it, and \<open>reloc c\<close> is the relocation of the outliers.
  An exception of a phase is not caught.
\<close>

function unwrap_with :: "(compound \<Rightarrow> (nat \<times> nat) list)
    \<Rightarrow> (compound \<Rightarrow> (nat \<times> nat) list \<Rightarrow> error + nat list)
    \<Rightarrow> (compound \<Rightarrow> nat list \<Rightarrow> error + compound)
    \<Rightarrow> int \<Rightarrow> compound \<Rightarrow> outcome \<times> compound \<times> message list" where
  "unwrap_with scan find_phase reloc count c =
     (if scan c = [] then (Returned, c, [NoBondsLonger])
      else
        (case find_phase c (scan c) of
           Inl e \<Rightarrow> (Raised e, c, [])
         | Inr outliers \<Rightarrow>
        (case reloc c outliers of
           Inl e \<Rightarrow> (Raised e, c, [])
         | Inr c' \<Rightarrow>
             if scan c' \<noteq> [] then
               (if count < 5 then
                  (case unwrap_with scan find_phase reloc (count + 1) c' of
                     (out, c'', msgs) \<Rightarrow> (out, c'', TryingAgain (count + 1) # msgs))
                else (Returned, c', [LimitExceeded]))
             else (Returned, c', []))))"
  by pat_completeness auto

termination unwrap_with
  by (relation "measure (\<lambda>(scan, find_phase, reloc, count, c). nat (5 - count))") auto

declare unwrap_with.simps [simp del]

section \<open>Predicates and invariants used in the properties\<close>

text \<open>Some bond of the atoms joins an atom of one bead to an atom of the other.\<close>

definition crossing :: "(nat \<times> nat) list \<Rightarrow> int list \<Rightarrow> int list \<Rightarrow> bool" where
  "crossing bs bead_i bead_j =
     (\<exists>pair \<in> set bs. (int (fst pair) \<in> set bead_i \<and> int (snd pair) \<in> set bead_j)
                    \<or> (int (snd pair) \<in> set bead_i \<and> int (fst pair) \<in> set bead_j))"

text \<open>The molecules of a list are pairwise disjoint.\<close>

definition disjoint_molecules :: "nat list list \<Rightarrow> bool" where
  "disjoint_molecules ms =
     (\<forall>i < length ms. \<forall>j < length ms. i \<noteq> j \<longrightarrow> set (ms ! i) \<inter> set (ms ! j) = {})"

text \<open>The particles that occur in some bond.\<close>

definition bonded_particles :: "(nat \<times> nat) list \<Rightarrow> nat set" where
  "bonded_particles bs = fst ` set bs \<union> snd ` set bs"

text \<open>
  The invariant of the loop of \<^verbatim>\<open>get_molecules\<close>: the groups found so far are
  disjoint, are not empty, and make up the set of the nodes seen.
\<close>

definition groups_inv :: "nat set \<Rightarrow> nat list list \<Rightarrow> bool" where
  "groups_inv seen ms \<longleftrightarrow>
     disjoint_molecules ms \<and> \<Union> (set ` set ms) = seen \<and> (\<forall>m \<in> set ms. distinct m \<and> m \<noteq> [])"

text \<open>The equation of \<^const>\<open>unwrap\<close> is recursive and is unfolded by hand.\<close>

declare unwrap.simps [simp del]




text \<open>
  The invariant of the loop that builds \<^verbatim>\<open>outlier_dict\<close>: every key is the index of
  a molecule and occurs once, and the set filed under a key is not empty.
\<close>

definition entries_ok :: "nat list list \<Rightarrow> graph \<Rightarrow> bool" where
  "entries_ok molecules d \<longleftrightarrow>
     distinct (map fst d) \<and> (\<forall>(k, os) \<in> set d. k < length molecules \<and> distinct os \<and> os \<noteq> [])"

section \<open>Example inputs\<close>

text \<open>A pattern matcher that finds two separate groups of three atoms, whatever the pattern.\<close>

definition alkyl_pair_findall :: "string \<Rightarrow> int list list" where
  "alkyl_pair_findall smart_str = [[1, 2, 3], [4, 5, 6]]"

text \<open>
  Six carbon atoms in a chain with one more bond between atoms 1 and 4, and two beads
  of three atoms each: two atomistic bonds, \<open>(2, 3)\<close> and \<open>(1, 4)\<close>, join the beads.
\<close>

definition hexane_cmpd :: cg_compound where
  "hexane_cmpd = \<lparr>names = [[67], [67], [67], [67], [67], [67]],
                  cg_bond_list = [(0, 1), (1, 2), (2, 3), (3, 4), (4, 5), (1, 4)]\<rparr>"

definition hexane_beads :: "match list" where
  "hexane_beads = [([0, 1, 2], ''CCC'', [95, 65]), ([3, 4, 5], ''CCC'', [95, 65])]"

text \<open>
  The default tolerance of \<^verbatim>\<open>unwrap\<close>; the molecules of a compound of two and of
  three particles that are all connected; and four compounds with all particles on
  the first axis.  In \<open>two_atoms\<close> one bond of length 9.8 joins the two particles; in
  \<open>three_atoms\<close> a third particle is bonded to the first at distance 0.2, and
  \<open>three_atoms_repaired\<close> is the same compound with the second particle moved by one
  box length; \<open>three_atoms_no_box\<close> has no box; in \<open>stretched\<close> both bonds have
  length 1 and no image of a particle is closer.
\<close>

definition default_tolerance :: real where
  "default_tolerance = 22 / 100"

definition pair_molecule :: "nat list list" where
  "pair_molecule = [[0, 1]]"

definition triple_molecule :: "nat list list" where
  "triple_molecule = [[0, 1, 2]]"

definition two_atoms :: compound where
  "two_atoms = \<lparr>xyz = [(1/10, 0, 0), (99/10, 0, 0)], bonds = [(0, 1)], box = Some (10, 10, 10)\<rparr>"

definition three_atoms :: compound where
  "three_atoms = \<lparr>xyz = [(1/10, 0, 0), (99/10, 0, 0), (3/10, 0, 0)], bonds = [(0, 1), (0, 2)],
                   box = Some (10, 10, 10)\<rparr>"

definition three_atoms_repaired :: compound where
  "three_atoms_repaired = \<lparr>xyz = [(1/10, 0, 0), (- 1/10, 0, 0), (3/10, 0, 0)], bonds = [(0, 1), (0, 2)],
                   box = Some (10, 10, 10)\<rparr>"

definition three_atoms_no_box :: compound where
  "three_atoms_no_box = \<lparr>xyz = [(1/10, 0, 0), (99/10, 0, 0), (3/10, 0, 0)], bonds = [(0, 1), (0, 2)],
                   box = None\<rparr>"

definition stretched :: compound where
  "stretched = \<lparr>xyz = [(0, 0, 0), (1, 0, 0), (2, 0, 0)], bonds = [(0, 1), (1, 2)],
                 box = Some (10, 10, 10)\<rparr>"





section \<open>Properties of the coarse-graining selection\<close>

lemma in_range_0_9_iff: "in_range_0_9 c \<longleftrightarrow> c \<in> set ''0123456789''"
proof (cases c)
  case (Char b0 b1 b2 b3 b4 b5 b6 b7)
  then show ?thesis
    by (cases b0; cases b1; cases b2; cases b3; cases b4; cases b5; cases b6; cases b7)
       (simp_all add: in_range_0_9_def)
qed

lemma has_number_iff: "has_number s \<longleftrightarrow> (\<exists>c\<in>set s. c \<in> set ''0123456789'')"
  by (simp add: has_number_def list_ex_iff in_range_0_9_iff)

lemma select_beads_append:
  "select_beads (ms @ ms') st = select_beads ms' (select_beads ms st)"
  by (induction ms st rule: select_beads.induct) simp_all

lemma select_beads_single:
  "select_beads [(grp, smarts, name)] (seen, bead_inds) =
     (if has_number smarts \<or> seen \<inter> set grp = {}
      then (seen \<union> set grp, bead_inds @ [(grp, smarts, name)])
      else (seen, bead_inds))"
  by (simp add: has_common_member_def)

lemma select_beads_seen:
  "fst st = (\<Union>m \<in> set (snd st). set (fst m)) \<Longrightarrow>
   fst (select_beads ms st) = (\<Union>m \<in> set (snd (select_beads ms st)). set (fst m))"
proof (induction ms st rule: select_beads.induct)
  case (1 seen bead_inds)
  then show ?case by simp
next
  case (2 grp smarts name matches seen bead_inds)
  have step: "fst (seen \<union> set grp, bead_inds @ [(grp, smarts, name)]) =
        (\<Union>m \<in> set (snd (seen \<union> set grp, bead_inds @ [(grp, smarts, name)])). set (fst m))"
    using "2.prems" by auto
  show ?case
  proof (cases "has_number smarts")
    case True
    with "2.IH"(1)[OF True step] show ?thesis by simp
  next
    case False
    show ?thesis
    proof (cases "has_common_member seen grp \<noteq> {}")
      case True
      with False "2.IH"(2)[OF False True "2.prems"] show ?thesis by simp
    next
      case no: False
      with False "2.IH"(3)[OF False no step] show ?thesis by simp
    qed
  qed
qed

text \<open>
  C4: \<^verbatim>\<open>coarse\<close> walks the matches in the order given, with the set of claimed atoms.
  A match whose pattern is ring-like (\<^const>\<open>has_number\<close>) is always accepted and
  all its atoms are added to the claimed set; a chain-like match is accepted if and
  only if none of its atoms is claimed, and is discarded as a whole otherwise.  The
  claimed set is the union of the accepted groups.  Of the chain-like matches
  \<open>{0,1,2}\<close> and then \<open>{2,3,4}\<close>, exactly the first is accepted.
\<close>

theorem coarse_greedy_selection:
  "select_beads (matches @ [(grp, smarts, name)]) ({}, []) =
     (case select_beads matches ({}, []) of (seen, bead_inds) \<Rightarrow>
        if has_number smarts \<or> seen \<inter> set grp = {}
        then (seen \<union> set grp, bead_inds @ [(grp, smarts, name)])
        else (seen, bead_inds))
   \<and> fst (select_beads matches ({}, [])) =
       (\<Union>m \<in> set (snd (select_beads matches ({}, []))). set (fst m))
   \<and> select_beads [([0, 1, 2], ''CCC'', n1), ([2, 3, 4], ''CCC'', n2)] ({}, []) =
       ({0, 1, 2}, [([0, 1, 2], ''CCC'', n1)])"
proof (intro conjI)
  show "select_beads (matches @ [(grp, smarts, name)]) ({}, []) =
     (case select_beads matches ({}, []) of (seen, bead_inds) \<Rightarrow>
        if has_number smarts \<or> seen \<inter> set grp = {}
        then (seen \<union> set grp, bead_inds @ [(grp, smarts, name)])
        else (seen, bead_inds))"
    by (cases "select_beads matches ({}, [])")
       (simp only: select_beads_append select_beads_single prod.case)
  show "fst (select_beads matches ({}, [])) =
       (\<Union>m \<in> set (snd (select_beads matches ({}, []))). set (fst m))"
    by (rule select_beads_seen) simp
  show "select_beads [([0, 1, 2], ''CCC'', n1), ([2, 3, 4], ''CCC'', n2)] ({}, []) =
       ({0, 1, 2}, [([0, 1, 2], ''CCC'', n1)])"
    by (simp add: has_number_def in_range_0_9_def has_common_member_def)
qed

theorem coarse_greedy_selection_witness:
  "select_beads ([([0, 1, 2], ''CCC'', [95, 65])] @ [([5, 6, 7, 8, 9], ''c1sccc1'', [95, 66])]) ({}, []) =
     ({0, 1, 2, 5, 6, 7, 8, 9}, [([0, 1, 2], ''CCC'', [95, 65]), ([5, 6, 7, 8, 9], ''c1sccc1'', [95, 66])])
   \<and> select_beads [([0, 1, 2], ''CCC'', [95, 65]), ([2, 3, 4], ''CCC'', [95, 65])] ({}, []) =
       ({0, 1, 2}, [([0, 1, 2], ''CCC'', [95, 65])])"
  using coarse_greedy_selection [of "[([0, 1, 2], ''CCC'', [95, 65])]" "[5, 6, 7, 8, 9]" "''c1sccc1''" "[95, 66]" "[95, 65]" "[95, 65]"]
  by (simp add: has_number_def in_range_0_9_def has_common_member_def insert_commute)

text \<open>
  C10: \<^verbatim>\<open>coarse\<close> takes a match for ring-like if and only if its SMARTS string holds
  a decimal digit: a match that overlaps the claimed atoms is accepted exactly when
  its pattern holds a digit, whatever else the match carries.
\<close>

theorem ring_like_iff_digit:
  "has_number smarts = (\<exists>c \<in> set smarts. c \<in> set ''0123456789'')
   \<and> select_beads ((grp, smarts, name) # matches) (seen, bead_inds) =
       select_beads matches
         (if (\<exists>c \<in> set smarts. c \<in> set ''0123456789'') \<or> seen \<inter> set grp = {}
          then (seen \<union> set grp, bead_inds @ [(grp, smarts, name)])
          else (seen, bead_inds))"
  unfolding has_number_iff [symmetric]
  by (simp add: has_common_member_def)

theorem ring_like_iff_digit_witness:
  "has_number ''c1sccc1'' \<and> \<not> has_number ''CCC''
   \<and> select_beads [([2, 3, 4], ''c1sccc1'', [95, 66])] ({0, 1, 2}, []) = ({0, 1, 2, 3, 4}, [([2, 3, 4], ''c1sccc1'', [95, 66])])
   \<and> select_beads [([2, 3, 4], ''CCC'', [95, 66])] ({0, 1, 2}, []) = ({0, 1, 2}, [])"
  using ring_like_iff_digit [of "''c1sccc1''" "[2, 3, 4]" "[95, 66]" "[]" "{0, 1, 2}" "[]"]
    ring_like_iff_digit [of "''CCC''" "[2, 3, 4]" "[95, 66]" "[]" "{0, 1, 2}" "[]"]
  by (simp add: insert_commute has_common_member_def)

section \<open>Bead names\<close>

lemma num2str_small: "i < 26 \<Longrightarrow> num2str i = Inr [65 + i]"
  by (simp add: num2str_def chr_def add.commute)

lemma num2str_two: "26 \<le> i \<Longrightarrow> i div 26 + 64 \<le> 1114111 \<Longrightarrow> num2str i = Inr [64 + i div 26, 65 + i mod 26]"
proof -
  assume a: "26 \<le> i" "i div 26 + 64 \<le> 1114111"
  have "i mod 26 < 26" by simp
  then have "i mod 26 + 65 \<le> 1114111" by linarith
  with a show ?thesis by (simp add: num2str_def chr_def add.commute)
qed

lemma num2str_Inr:
  "num2str i = Inr l \<Longrightarrow> l = (if i < 26 then [i + 65] else [i div 26 + 64, i mod 26 + 65])"
  by (auto simp: num2str_def chr_def split: if_splits)

lemma num2str_inj: "num2str i = Inr l \<Longrightarrow> num2str j = Inr l \<Longrightarrow> i = j"
proof -
  assume a: "num2str i = Inr l" "num2str j = Inr l"
  have eq: "(if i < 26 then [i + 65] else [i div 26 + 64, i mod 26 + 65]) =
            (if j < 26 then [j + 65] else [j div 26 + 64, j mod 26 + 65])"
    using num2str_Inr[OF a(1)] num2str_Inr[OF a(2)] by simp
  show ?thesis
  proof (cases "i < 26")
    case True
    with eq show ?thesis by (cases "j < 26") simp_all
  next
    case False
    with eq have j: "\<not> j < 26" by (cases "j < 26") simp_all
    with eq False have "i div 26 = j div 26" "i mod 26 = j mod 26" by simp_all
    then show ?thesis by (metis div_mult_mod_eq)
  qed
qed

lemma group_matches_Inr:
  "group_matches i s groups = Inr ms \<Longrightarrow>
   ms = map (\<lambda>g. (map (\<lambda>a. a - 1) g, s, 95 # projr (num2str i))) groups"
  by (induction groups arbitrary: ms) (auto split: sum.splits)

lemma find_matches_Inr:
  "find_matches findall k bs = Inr ms \<Longrightarrow>
   ms = concat (map (\<lambda>i. map (\<lambda>g. (map (\<lambda>a. a - 1) g, bs ! i, 95 # projr (num2str (k + i))))
                              (findall (bs ! i))) [0 ..< length bs])"
proof (induction bs arbitrary: k ms)
  case Nil
  then show ?case by simp
next
  case (Cons b bs)
  from Cons.prems obtain m1 m2 where
    m1: "group_matches k b (findall b) = Inr m1" and
    m2: "find_matches findall (Suc k) bs = Inr m2" and ms: "ms = m1 @ m2"
    by (auto split: sum.splits)
  have upt: "[0 ..< length (b # bs)] = 0 # map Suc [0 ..< length bs]"
    by (simp add: upt_conv_Cons map_Suc_upt del: upt_Suc)
  show ?case
    unfolding upt ms
    using group_matches_Inr[OF m1] Cons.IH[OF m2]
    by (simp add: comp_def)
qed

lemma select_beads_subset:
  "set (snd (select_beads ms st)) \<subseteq> set (snd st) \<union> set ms"
  by (induction ms st rule: select_beads.induct) (auto split: if_splits)

text \<open>
  Two alkyl groups matched by the one pattern \<^verbatim>\<open>CCC\<close> become two beads, and both are
  named \<^verbatim>\<open>_A\<close>: the beads of one run of \<^verbatim>\<open>coarse\<close> can share a label.
\<close>

theorem bead_labels_shared:
  "coarse_bead_inds alkyl_pair_findall [''CCC''] =
     Inr [([0, 1, 2], ''CCC'', [95, 65]), ([3, 4, 5], ''CCC'', [95, 65])]
   \<and> names (fst (cg_comp \<lparr>names = [], cg_bond_list = []\<rparr>
        [([0, 1, 2], ''CCC'', [95, 65]), ([3, 4, 5], ''CCC'', [95, 65])])) = [[95, 65], [95, 65]]"
  by (simp add: coarse_bead_inds_def alkyl_pair_findall_def num2str_def chr_def
      has_number_def in_range_0_9_def has_common_member_def cg_comp_def)

text \<open>
  C6, as the code has it: a bead is named after its pattern and not after itself.  The
  matches of the pattern at position \<open>i\<close> of \<^verbatim>\<open>bead_smarts\<close> all carry the name made
  of an underscore and \<^verbatim>\<open>num2str(i)\<close>, the accepted beads are among the matches, and
  \<^verbatim>\<open>cg_comp\<close> gives every bead particle the name of its match.  \<^verbatim>\<open>num2str\<close> maps
  different numbers to different strings; it maps \<open>0, \<dots>, 25\<close> to the letters
  \<open>A, \<dots>, Z\<close> and \<open>26, \<dots>, 701\<close> to the two-letter words \<open>AA, AB, \<dots>, ZZ\<close>.
\<close>

theorem bead_label_of_pattern:
  "(find_matches findall 0 bead_smarts = Inr matches \<longrightarrow>
      matches = concat (map (\<lambda>i. map (\<lambda>g. (map (\<lambda>a. a - 1) g, bead_smarts ! i, 95 # projr (num2str i)))
                                     (findall (bead_smarts ! i))) [0 ..< length bead_smarts])
      \<and> set (snd (select_beads matches ({}, []))) \<subseteq> set matches)
   \<and> names (fst (cg_comp cmpd bead_inds)) = names cmpd @ map (\<lambda>m. snd (snd m)) bead_inds
   \<and> (num2str i = Inr l \<and> num2str j = Inr l \<longrightarrow> i = j)
   \<and> (i < 26 \<longrightarrow> num2str i = Inr [65 + i])
   \<and> (26 \<le> i \<and> i \<le> 701 \<longrightarrow>
        num2str i = Inr [64 + i div 26, 65 + i mod 26] \<and> 65 \<le> 64 + i div 26 \<and> 64 + i div 26 \<le> 90)"
proof (intro conjI impI)
  assume fm: "find_matches findall 0 bead_smarts = Inr matches"
  show "matches = concat (map (\<lambda>i. map (\<lambda>g. (map (\<lambda>a. a - 1) g, bead_smarts ! i, 95 # projr (num2str i)))
                                     (findall (bead_smarts ! i))) [0 ..< length bead_smarts])"
    using find_matches_Inr[OF fm] by simp
  show "set (snd (select_beads matches ({}, []))) \<subseteq> set matches"
    using select_beads_subset[of matches "({}, [])"] by simp
next
  show "names (fst (cg_comp cmpd bead_inds)) = names cmpd @ map (\<lambda>m. snd (snd m)) bead_inds"
    by (simp add: cg_comp_def case_prod_beta)
next
  assume "num2str i = Inr l \<and> num2str j = Inr l"
  then show "i = j" using num2str_inj by blast
next
  assume "i < 26" then show "num2str i = Inr [65 + i]" by (rule num2str_small)
next
  assume a: "26 \<le> i \<and> i \<le> 701"
  then have d: "i div 26 \<le> 26" by linarith
  from a have d1: "1 \<le> i div 26" by linarith
  from a d show "num2str i = Inr [64 + i div 26, 65 + i mod 26]"
    by (intro num2str_two) simp_all
  from d1 show "65 \<le> 64 + i div 26" by simp
  from d show "64 + i div 26 \<le> 90" by simp
qed

theorem bead_label_of_pattern_witness:
  "find_matches alkyl_pair_findall 0 [''CCC'', ''c1sccc1''] =
      Inr [([0, 1, 2], ''CCC'', [95, 65]), ([3, 4, 5], ''CCC'', [95, 65]),
           ([0, 1, 2], ''c1sccc1'', [95, 66]), ([3, 4, 5], ''c1sccc1'', [95, 66])]
   \<and> num2str 0 = Inr [65] \<and> num2str 25 = Inr [90] \<and> num2str 26 = Inr [65, 65]
   \<and> num2str 27 = Inr [65, 66] \<and> num2str 701 = Inr [90, 90]"
  using bead_label_of_pattern [of alkyl_pair_findall "[''CCC'', ''c1sccc1'']"
      "[([0, 1, 2], ''CCC'', [95, 65]), ([3, 4, 5], ''CCC'', [95, 65]),
           ([0, 1, 2], ''c1sccc1'', [95, 66]), ([3, 4, 5], ''c1sccc1'', [95, 66])]"
      "\<lparr>names = [], cg_bond_list = []\<rparr>" "[]" 27 "[65, 66]" 27]
  by (simp add: alkyl_pair_findall_def num2str_def chr_def)

section \<open>Bonds between beads\<close>

lemma set_pair_loop:
  "set (pair_loop bs bead_i bead_j e) = (if crossing bs bead_i bead_j then {e} else {})"
  by (induction bs) (auto simp: crossing_def)

lemma in_set_j_loop:
  "(p, q) \<in> set (j_loop bs i bead_i j0 rest) \<longleftrightarrow>
     p = i \<and> (\<exists>k < length rest. q = j0 + k + i + 1 \<and> crossing bs bead_i (fst (rest ! k)))"
proof (induction rest arbitrary: j0)
  case Nil
  then show ?case by simp
next
  case (Cons m rest)
  obtain bead_j smarts name where m: "m = (bead_j, smarts, name)" by (cases m)
  have split: "(\<exists>k < length (m # rest). q = j0 + k + i + 1 \<and> crossing bs bead_i (fst ((m # rest) ! k)))
      \<longleftrightarrow> (q = j0 + i + 1 \<and> crossing bs bead_i bead_j)
        \<or> (\<exists>k < length rest. q = Suc j0 + k + i + 1 \<and> crossing bs bead_i (fst (rest ! k)))"
    (is "?L \<longleftrightarrow> ?A \<or> ?B")
  proof
    assume ?L
    then obtain k where k: "k < length (m # rest)" "q = j0 + k + i + 1"
      "crossing bs bead_i (fst ((m # rest) ! k))" by blast
    show "?A \<or> ?B"
    proof (cases k)
      case 0
      with k m show ?thesis by simp
    next
      case (Suc k')
      with k have "k' < length rest \<and> q = Suc j0 + k' + i + 1 \<and> crossing bs bead_i (fst (rest ! k'))"
        by simp
      then show ?thesis by blast
    qed
  next
    assume "?A \<or> ?B"
    then show ?L
    proof
      assume ?A
      then have "0 < length (m # rest) \<and> q = j0 + 0 + i + 1 \<and> crossing bs bead_i (fst ((m # rest) ! 0))"
        using m by simp
      then show ?L by blast
    next
      assume ?B
      then obtain k where "k < length rest" "q = Suc j0 + k + i + 1" "crossing bs bead_i (fst (rest ! k))"
        by blast
      then have "Suc k < length (m # rest) \<and> q = j0 + Suc k + i + 1
          \<and> crossing bs bead_i (fst ((m # rest) ! Suc k))" by simp
      then show ?L by blast
    qed
  qed
  show ?case
    unfolding split using Cons.IH[of "Suc j0"] m
    by (auto simp: set_pair_loop)
qed

lemma in_set_bead_bonds:
  "(p, q) \<in> set (bead_bonds bs beads) \<longleftrightarrow>
     p < q \<and> q < length beads \<and> crossing bs (fst (beads ! p)) (fst (beads ! q))"
proof
  assume "(p, q) \<in> set (bead_bonds bs beads)"
  then obtain i where i: "i < length beads - 1"
    and "(p, q) \<in> set (j_loop bs i (fst (beads ! i)) 0 (drop (i + 1) beads))"
    by (auto simp: bead_bonds_def)
  then obtain k where "p = i" "k < length (drop (i + 1) beads)" "q = 0 + k + i + 1"
    "crossing bs (fst (beads ! i)) (fst (drop (i + 1) beads ! k))"
    unfolding in_set_j_loop by blast
  then show "p < q \<and> q < length beads \<and> crossing bs (fst (beads ! p)) (fst (beads ! q))"
    by (simp add: add.commute)
next
  assume a: "p < q \<and> q < length beads \<and> crossing bs (fst (beads ! p)) (fst (beads ! q))"
  define k where "k = q - p - 1"
  from a have q: "q = Suc (p + k)" by (simp add: k_def)
  from a q have k: "k < length (drop (p + 1) beads)" "q = 0 + k + p + 1"
    "crossing bs (fst (beads ! p)) (fst (drop (p + 1) beads ! k))"
    by auto
  then have "(p, q) \<in> set (j_loop bs p (fst (beads ! p)) 0 (drop (p + 1) beads))"
    unfolding in_set_j_loop by blast
  moreover from a have "p < length beads - 1" by linarith
  then have "p \<in> set [0 ..< length beads - 1]" by simp
  ultimately show "(p, q) \<in> set (bead_bonds bs beads)"
    unfolding bead_bonds_def set_concat set_map by blast
qed

lemma filter_two_upt:
  assumes "a < b" "b < n"
  shows "filter (\<lambda>i. i = a \<or> i = b) [0 ..< n] = [a, b]"
proof -
  have "[0 ..< n] = [0 ..< a] @ [a ..< n]"
    using upt_add_eq_append[of 0 a "n - a"] assms by simp
  moreover have "[a ..< n] = [a ..< b] @ [b ..< n]"
    using upt_add_eq_append[of a b "n - b"] assms by simp
  ultimately have 1: "[0 ..< n] = [0 ..< a] @ [a ..< b] @ [b ..< n]" by simp
  have 2: "[a ..< b] = a # [Suc a ..< b]" "[b ..< n] = b # [Suc b ..< n]"
    using assms by (simp_all add: upt_conv_Cons)
  have 3: "filter (\<lambda>i. i = a \<or> i = b) [0 ..< a] = []"
    "filter (\<lambda>i. i = a \<or> i = b) [Suc a ..< b] = []"
    "filter (\<lambda>i. i = a \<or> i = b) [Suc b ..< n] = []"
    using assms by (auto simp: filter_empty_conv)
  show ?thesis
    unfolding 1 2 filter_append filter.simps 3 using assms by simp
qed

lemma add_bead_bonds_ok:
  assumes "\<forall>pair \<in> set pairs. fst pair < snd pair \<and> snd pair + N < n"
  shows "\<exists>bs'. add_bead_bonds n N pairs bs = Inr bs'
       \<and> set bs' = set bs \<union> (\<lambda>pair. (fst pair + N, snd pair + N)) ` set pairs
       \<and> (distinct bs \<longrightarrow> distinct bs')"
  using assms
proof (induction pairs arbitrary: bs)
  case Nil
  then show ?case by simp
next
  case (Cons pair pairs)
  then have pq: "fst pair + N < snd pair + N" "snd pair + N < n" by simp_all
  have f: "filter (\<lambda>i. i = fst pair + N \<or> i = snd pair + N) [0 ..< n] = [fst pair + N, snd pair + N]"
    by (rule filter_two_upt[OF pq])
  have ab: "add_bond bs (fst pair + N, snd pair + N) = List.insert (fst pair + N, snd pair + N) bs"
    using pq by (simp add: add_bond_def min_def max_def)
  from Cons.prems have "\<forall>pair \<in> set pairs. fst pair < snd pair \<and> snd pair + N < n" by simp
  from Cons.IH[OF this, of "List.insert (fst pair + N, snd pair + N) bs"]
  show ?case by (auto simp: f ab)
qed


lemma distinct_count_list_le_1: "distinct xs \<Longrightarrow> count_list xs x \<le> 1"
  by (induction xs) (auto simp: count_list_0_iff)

text \<open>
  C5: in a compound whose bonds join its own particles, \<^verbatim>\<open>cg_comp\<close> followed by
  \<^verbatim>\<open>cg_bonds\<close> returns a compound in which the beads of two accepted groups are
  bonded if and only if some atomistic bond joins an atom of the one group to an atom
  of the other, and in which that bond occurs at most once, however many atomistic
  bonds cross between the groups.
\<close>

theorem cg_bonds_one_bond_per_bead_pair:
  assumes "\<forall>pair \<in> set (cg_bond_list cmpd). fst pair < length (names cmpd) \<and> snd pair < length (names cmpd)"
    and "distinct (cg_bond_list cmpd)"
    and "i < j" and "j < length beads"
  shows "\<exists>cmpd'. (case cg_comp cmpd beads of (c1, N) \<Rightarrow> cg_bonds c1 beads N) = Inr cmpd'
     \<and> ((length (names cmpd) + i, length (names cmpd) + j) \<in> set (cg_bond_list cmpd') \<longleftrightarrow>
          (\<exists>pair \<in> set (cg_bond_list cmpd).
              (int (fst pair) \<in> set (fst (beads ! i)) \<and> int (snd pair) \<in> set (fst (beads ! j)))
            \<or> (int (snd pair) \<in> set (fst (beads ! i)) \<and> int (fst pair) \<in> set (fst (beads ! j)))))
     \<and> count_list (cg_bond_list cmpd') (length (names cmpd) + i, length (names cmpd) + j)
       + count_list (cg_bond_list cmpd') (length (names cmpd) + j, length (names cmpd) + i) \<le> 1"
proof -
  let ?N = "length (names cmpd)"
  let ?bs = "cg_bond_list cmpd"
  let ?pairs = "bead_bonds ?bs beads"
  have pairs: "\<forall>pair \<in> set ?pairs. fst pair < snd pair \<and> snd pair + ?N < ?N + length beads"
    using in_set_bead_bonds[of _ _ ?bs beads] by (metis add.commute nat_add_left_cancel_less prod.collapse)
  from add_bead_bonds_ok[OF pairs, of ?bs] obtain bs' where
    ok: "add_bead_bonds (?N + length beads) ?N ?pairs ?bs = Inr bs'" and
    set: "set bs' = set ?bs \<union> (\<lambda>pair. (fst pair + ?N, snd pair + ?N)) ` set ?pairs" and
    dist: "distinct bs'"
    using assms(2) by blast
  define c1 where "c1 = cmpd\<lparr>names := names cmpd @ map (\<lambda>(bead, smarts, bead_name). bead_name) beads\<rparr>"
  have run: "(case cg_comp cmpd beads of (c1, N) \<Rightarrow> cg_bonds c1 beads N) = Inr (c1\<lparr>cg_bond_list := bs'\<rparr>)"
    using ok by (simp add: cg_comp_def cg_bonds_def c1_def)
  have not_old: "(?N + a, b) \<notin> set ?bs" "(b, ?N + a) \<notin> set ?bs" for a b
    using assms(1) by force+
  have img: "(?N + a, ?N + b) \<in> (\<lambda>pair. (fst pair + ?N, snd pair + ?N)) ` set ?pairs
      \<longleftrightarrow> (a, b) \<in> set ?pairs" for a b
    by (force simp: add.commute)
  have fwd: "(?N + i, ?N + j) \<in> set bs' \<longleftrightarrow> (i, j) \<in> set ?pairs"
    unfolding set using not_old img by simp
  have rev_absent: "(?N + j, ?N + i) \<notin> set bs'"
  proof
    assume "(?N + j, ?N + i) \<in> set bs'"
    then have "(j, i) \<in> set ?pairs"
      unfolding set using not_old img by simp
    then show False using assms(3) by (simp add: in_set_bead_bonds)
  qed
  have c: "count_list bs' (?N + i, ?N + j) \<le> 1"
    using dist by (rule distinct_count_list_le_1)
  have c0: "count_list bs' (?N + j, ?N + i) = 0"
    using rev_absent by (simp add: count_list_0_iff)
  show ?thesis
    unfolding run
    using fwd c c0 assms(3,4)
    by (simp add: in_set_bead_bonds crossing_def)
qed

theorem cg_bonds_one_bond_per_bead_pair_witness:
  "distinct (cg_bond_list hexane_cmpd) \<and> (0::nat) < 1 \<and> 1 < length hexane_beads
   \<and> (case cg_comp hexane_cmpd hexane_beads of (c1, N) \<Rightarrow> cg_bonds c1 hexane_beads N) =
       Inr \<lparr>names = [[67], [67], [67], [67], [67], [67], [95, 65], [95, 65]],
            cg_bond_list = [(6, 7), (0, 1), (1, 2), (2, 3), (3, 4), (4, 5), (1, 4)]\<rparr>
   \<and> bead_bonds (cg_bond_list hexane_cmpd) hexane_beads = [(0, 1), (0, 1)]"
  using cg_bonds_one_bond_per_bead_pair [of hexane_cmpd 0 1 hexane_beads]
  by (simp add: hexane_cmpd_def hexane_beads_def cg_comp_def cg_bonds_def bead_bonds_def add_bond_def)

section \<open>The molecules of a snapshot\<close>

lemma graph_add_keys: "fst ` set (graph_add g k v) = insert k (fst ` set g)"
  by (induction g k v rule: graph_add.induct) auto

lemma graph_add_vals:
  "(\<Union>kv \<in> set (graph_add g k v). set (snd kv)) = insert v (\<Union>kv \<in> set g. set (snd kv))"
  by (induction g k v rule: graph_add.induct) auto

lemma graph_add_nodes: "graph_nodes (graph_add g k v) = insert k (insert v (graph_nodes g))"
  unfolding graph_nodes_def graph_add_keys graph_add_vals by auto

lemma fold_graph_add_keys:
  "fst ` set (fold (\<lambda>row g. graph_add (graph_add g (fst row) (snd row)) (snd row) (fst row)) bs g0)
     = fst ` set g0 \<union> bonded_particles bs"
  by (induction bs arbitrary: g0) (auto simp: graph_add_keys bonded_particles_def)

lemma fold_graph_add_nodes:
  "graph_nodes (fold (\<lambda>row g. graph_add (graph_add g (fst row) (snd row)) (snd row) (fst row)) bs g0)
     = graph_nodes g0 \<union> bonded_particles bs"
  by (induction bs arbitrary: g0) (auto simp: graph_add_nodes bonded_particles_def)

lemma snap_bond_graph_keys: "fst ` set (snap_bond_graph bs) = bonded_particles bs"
  by (simp add: snap_bond_graph_def fold_graph_add_keys)

lemma snap_bond_graph_nodes: "graph_nodes (snap_bond_graph bs) = bonded_particles bs"
proof -
  have "graph_nodes [] = {}" by (simp add: graph_nodes_def)
  then show ?thesis by (simp add: snap_bond_graph_def fold_graph_add_nodes)
qed

lemma get_connected_group_inv:
  assumes "get_connected_group g nodes seen res = (res', seen')"
    and "set nodes \<inter> seen = {}"
  shows "seen \<subseteq> seen' \<and> set nodes \<subseteq> seen' \<and> set res' = set res \<union> (seen' - seen)
       \<and> seen' \<subseteq> seen \<union> set nodes \<union> graph_nodes g \<and> (distinct res \<longrightarrow> distinct res')"
  using assms
proof (induction g nodes seen res rule: get_connected_group.induct)
  case (1 graph already_seen result)
  then show ?case by auto
next
  case (2 graph node nodes already_seen result)
  let ?seen = "insert node already_seen"
  let ?nodes = "List.union [n \<leftarrow> graph_get graph node. n \<notin> ?seen] (removeAll node nodes)"
  from "2.prems"(1) have run: "get_connected_group graph ?nodes ?seen (List.insert node result) = (res', seen')"
    by simp
  have disj: "set ?nodes \<inter> ?seen = {}" using "2.prems"(2) by auto
  note IH = "2.IH"[OF run disj]
  have new: "node \<notin> already_seen" using "2.prems"(2) by auto
  have sub: "set ?nodes \<subseteq> insert node (set nodes) \<union> graph_nodes graph"
    using graph_get_subset[of graph node] by auto
  from IH new sub show ?case by (auto simp: distinct_insert)
qed

lemma disjoint_molecules_snoc:
  "disjoint_molecules (ms @ [g]) \<longleftrightarrow> disjoint_molecules ms \<and> (\<forall>m \<in> set ms. set m \<inter> set g = {})"
proof
  assume a: "disjoint_molecules (ms @ [g])"
  have "disjoint_molecules ms"
    unfolding disjoint_molecules_def
  proof (intro allI impI)
    fix i j assume "i < length ms" "j < length ms" "i \<noteq> j"
    with a[unfolded disjoint_molecules_def, rule_format, of i j]
    show "set (ms ! i) \<inter> set (ms ! j) = {}" by (simp add: nth_append)
  qed
  moreover have "\<forall>m \<in> set ms. set m \<inter> set g = {}"
  proof
    fix m assume "m \<in> set ms"
    then obtain i where i: "i < length ms" "ms ! i = m" by (auto simp: in_set_conv_nth)
    with a[unfolded disjoint_molecules_def, rule_format, of i "length ms"]
    show "set m \<inter> set g = {}" by (simp add: nth_append)
  qed
  ultimately show "disjoint_molecules ms \<and> (\<forall>m \<in> set ms. set m \<inter> set g = {})" ..
next
  assume a: "disjoint_molecules ms \<and> (\<forall>m \<in> set ms. set m \<inter> set g = {})"
  show "disjoint_molecules (ms @ [g])"
    unfolding disjoint_molecules_def
  proof (intro allI impI)
    fix i j assume ij: "i < length (ms @ [g])" "j < length (ms @ [g])" "i \<noteq> j"
    consider "i < length ms" "j < length ms" | "i < length ms" "j = length ms"
      | "i = length ms" "j < length ms"
      using ij by (cases "i < length ms"; cases "j < length ms") auto
    then show "set ((ms @ [g]) ! i) \<inter> set ((ms @ [g]) ! j) = {}"
    proof cases
      case 1
      with a ij show ?thesis by (simp add: nth_append disjoint_molecules_def)
    next
      case 2
      with a have "set (ms ! i) \<inter> set g = {}" by simp
      with 2 show ?thesis by (simp add: nth_append)
    next
      case 3
      with a have "set (ms ! j) \<inter> set g = {}" by simp
      with 3 show ?thesis by (auto simp: nth_append)
    qed
  qed
qed

lemma molecules_loop_inv:
  assumes "groups_inv seen result"
  shows "\<exists>seen'. groups_inv seen' (molecules_loop g keys seen result)
           \<and> seen \<union> set keys \<subseteq> seen' \<and> seen' \<subseteq> seen \<union> set keys \<union> graph_nodes g"
  using assms
proof (induction g keys seen result rule: molecules_loop.induct)
  case (1 graph already_seen result)
  then show ?case by auto
next
  case (2 graph node keys already_seen result)
  show ?case
  proof (cases "node \<in> already_seen")
    case True
    with "2.IH"(2)[OF _ "2.prems"] show ?thesis by auto
  next
    case False
    obtain grp seen1 where run: "get_connected_group graph [node] already_seen [] = (grp, seen1)"
      by (cases "get_connected_group graph [node] already_seen []")
    from get_connected_group_inv[OF run] False
    have g: "already_seen \<subseteq> seen1" "node \<in> seen1" "set grp = seen1 - already_seen"
      "seen1 \<subseteq> insert node already_seen \<union> graph_nodes graph" "distinct grp"
      by auto
    have ne: "grp \<noteq> []" using g False by auto
    have inv: "groups_inv seen1 (result @ [grp])"
      using "2.prems" g ne
      unfolding groups_inv_def disjoint_molecules_snoc by auto
    from "2.IH"(1)[OF False run[symmetric] inv] obtain seen' where
      "groups_inv seen' (molecules_loop graph keys seen1 (result @ [grp]))"
      "seen1 \<union> set keys \<subseteq> seen'" "seen' \<subseteq> seen1 \<union> set keys \<union> graph_nodes graph"
      by blast
    with g False run show ?thesis by (intro exI[of _ seen']) auto
  qed
qed

text \<open>
  In a snapshot of three particles with the one bond \<open>(0, 1)\<close>, \<^verbatim>\<open>get_molecules\<close>
  returns the one molecule \<open>{0, 1}\<close>: particle 2, which has no bond, is in no molecule,
  and the union of the molecules is not the set of all particle indices.
\<close>

theorem get_molecules_misses_isolated:
  "get_molecules \<lparr>particles_N = 3, bonds_group = [(0, 1)]\<rparr> = [[1, 0]]
   \<and> \<Union> (set ` set (get_molecules \<lparr>particles_N = 3, bonds_group = [(0, 1)]\<rparr>))
       \<noteq> {0 ..< particles_N \<lparr>particles_N = 3, bonds_group = [(0, 1)]\<rparr>}"
proof -
  have 1: "get_molecules \<lparr>particles_N = 3, bonds_group = [(0, 1)]\<rparr> = [[1, 0]]"
    by (simp add: get_molecules_def snap_bond_graph_def graph_get_def List.union_def)
  have "(2::nat) \<in> {0 ..< 3}" by simp
  moreover have "(2::nat) \<notin> {1, 0}" by simp
  ultimately have "{1, 0} \<noteq> {0 ..< (3::nat)}" by metis
  with 1 show ?thesis by simp
qed

text \<open>
  C7, as the code has it: the molecules that \<^verbatim>\<open>get_molecules\<close> returns for a snapshot
  are pairwise disjoint and not empty, and their union is the set of the particles that
  occur in some bond.  A particle without bonds is in no molecule.
\<close>

theorem get_molecules_partition_of_bonded:
  "(\<forall>i < length (get_molecules snap). \<forall>j < length (get_molecules snap).
       i \<noteq> j \<longrightarrow> set (get_molecules snap ! i) \<inter> set (get_molecules snap ! j) = {})
   \<and> \<Union> (set ` set (get_molecules snap)) = fst ` set (bonds_group snap) \<union> snd ` set (bonds_group snap)
   \<and> (\<forall>m \<in> set (get_molecules snap). distinct m \<and> m \<noteq> [])"
proof -
  let ?g = "snap_bond_graph (bonds_group snap)"
  have "groups_inv {} []" by (simp add: groups_inv_def disjoint_molecules_def)
  from molecules_loop_inv[OF this, of ?g "map fst ?g"] obtain seen' where
    inv: "groups_inv seen' (get_molecules snap)" and
    lo: "set (map fst ?g) \<subseteq> seen'" and hi: "seen' \<subseteq> set (map fst ?g) \<union> graph_nodes ?g"
    by (auto simp: get_molecules_def Let_def)
  have "seen' = bonded_particles (bonds_group snap)"
    using lo hi by (auto simp: snap_bond_graph_keys snap_bond_graph_nodes)
  with inv show ?thesis
    by (simp add: groups_inv_def disjoint_molecules_def bonded_particles_def)
qed

theorem get_molecules_partition_of_bonded_witness:
  "get_molecules \<lparr>particles_N = 7, bonds_group = [(0, 1), (2, 3), (1, 4), (3, 5), (5, 2)]\<rparr>
      = [[4, 1, 0], [5, 3, 2]]
   \<and> set [4, 1, 0] \<inter> set [5, 3, 2] = ({} :: nat set)
   \<and> \<Union> (set ` set [[4, 1, 0], [5, 3, 2 :: nat]]) = {0, 1, 2, 3, 4, 5}"
  using get_molecules_partition_of_bonded
    [of "\<lparr>particles_N = 7, bonds_group = [(0, 1), (2, 3), (1, 4), (3, 5), (5, 2)]\<rparr>"]
  by (simp add: get_molecules_def snap_bond_graph_def graph_get_def List.union_def insert_commute)

section \<open>The retry loop of \<^verbatim>\<open>unwrap\<close>\<close>

lemma unwrap_no_bad_bonds:
  "check_bad_bonds d_tolerance c = [] \<Longrightarrow> unwrap molecules d_tolerance count c = (Returned, c, [NoBondsLonger])"
  by (subst unwrap.simps) simp

lemma unwrap_success_no_bad_bonds:
  "unwrap molecules d_tolerance count c = (Returned, c', msgs) \<Longrightarrow> LimitExceeded \<notin> set msgs
   \<Longrightarrow> check_bad_bonds d_tolerance c' = []"
proof (induction molecules d_tolerance count c arbitrary: msgs rule: unwrap.induct)
  case (1 molecules d_tolerance count c)
  show ?case
  proof (cases "check_bad_bonds d_tolerance c = []")
    case True
    with "1.prems" show ?thesis by (simp add: unwrap_no_bad_bonds)
  next
    case bad: False
    show ?thesis
    proof (cases "unwrap_pass molecules c (check_bad_bonds d_tolerance c)")
      case (Inl e)
      with bad "1.prems" show ?thesis by (subst (asm) unwrap.simps) simp
    next
      case (Inr c1)
      show ?thesis
      proof (cases "check_bad_bonds d_tolerance c1 = []")
        case True
        with bad Inr "1.prems" show ?thesis by (subst (asm) unwrap.simps) simp
      next
        case still: False
        show ?thesis
        proof (cases "count < 5")
          case True
          obtain out c2 msgs2 where rec: "unwrap molecules d_tolerance (count + 1) c1 = (out, c2, msgs2)"
            by (cases "unwrap molecules d_tolerance (count + 1) c1")
          from "1.prems"(1) bad Inr still True rec
          have "out = Returned" "c2 = c'" "msgs = TryingAgain (count + 1) # msgs2"
            by (subst (asm) unwrap.simps, simp)+
          with "1.prems"(2) rec "1.IH"[OF bad Inr still True, of msgs2]
          show ?thesis by simp
        next
          case False
          with bad Inr still "1.prems"(1) have "msgs = [LimitExceeded]"
            by (subst (asm) unwrap.simps) auto
          with "1.prems"(2) show ?thesis by simp
        qed
      qed
    qed
  qed
qed

lemma unwrap_messages:
  "count \<le> 5 \<Longrightarrow> unwrap molecules d_tolerance count c = (out, c', msgs) \<Longrightarrow>
   \<exists>k final. int k \<le> 5 - count
     \<and> msgs = map (\<lambda>n. TryingAgain (count + int n)) [1 ..< Suc k] @ final
     \<and> final \<in> {[], [NoBondsLonger], [LimitExceeded]}
     \<and> (final = [LimitExceeded] \<longrightarrow>
           int k = 5 - count \<and> out = Returned \<and> check_bad_bonds d_tolerance c' \<noteq> [])"
proof (induction molecules d_tolerance count c arbitrary: out c' msgs rule: unwrap.induct)
  case (1 molecules d_tolerance count c)
  have base: "\<exists>k final. int k \<le> 5 - count
     \<and> msgs = map (\<lambda>n. TryingAgain (count + int n)) [1 ..< Suc k] @ final
     \<and> final \<in> {[], [NoBondsLonger], [LimitExceeded]}
     \<and> (final = [LimitExceeded] \<longrightarrow>
           int k = 5 - count \<and> out = Returned \<and> check_bad_bonds d_tolerance c' \<noteq> [])"
    if "msgs \<in> {[], [NoBondsLonger]}"
    using that "1.prems"(1) by (intro exI[of _ 0] exI[of _ msgs]) auto
  show ?case
  proof (cases "check_bad_bonds d_tolerance c = []")
    case True
    with "1.prems" have "msgs = [NoBondsLonger]" by (simp add: unwrap_no_bad_bonds)
    then show ?thesis by (intro base) simp
  next
    case bad: False
    show ?thesis
    proof (cases "unwrap_pass molecules c (check_bad_bonds d_tolerance c)")
      case (Inl e)
      with bad "1.prems" have "msgs = []" by (subst (asm) unwrap.simps) simp
      then show ?thesis by (intro base) simp
    next
      case (Inr c1)
      show ?thesis
      proof (cases "check_bad_bonds d_tolerance c1 = []")
        case True
        with bad Inr "1.prems" have "msgs = []" by (subst (asm) unwrap.simps) simp
        then show ?thesis by (intro base) simp
      next
        case still: False
        show ?thesis
        proof (cases "count < 5")
          case True
          obtain out2 c2 msgs2 where rec: "unwrap molecules d_tolerance (count + 1) c1 = (out2, c2, msgs2)"
            by (cases "unwrap molecules d_tolerance (count + 1) c1")
          from "1.prems"(2) bad Inr still True rec
          have eqs: "out2 = out" "c2 = c'" "msgs = TryingAgain (count + 1) # msgs2"
            by (subst (asm) unwrap.simps, simp)+
          from True have le: "count + 1 \<le> 5" by simp
          from "1.IH"[OF bad Inr still True le rec] obtain k final where
            k: "int k \<le> 5 - (count + 1)"
            "msgs2 = map (\<lambda>n. TryingAgain (count + 1 + int n)) [1 ..< Suc k] @ final"
            "final \<in> {[], [NoBondsLonger], [LimitExceeded]}"
            "final = [LimitExceeded] \<longrightarrow>
               int k = 5 - (count + 1) \<and> out2 = Returned \<and> check_bad_bonds d_tolerance c2 \<noteq> []"
            by blast
          have shift: "map (\<lambda>n. TryingAgain (count + int n)) [1 ..< Suc (Suc k)]
              = TryingAgain (count + 1) # map (\<lambda>n. TryingAgain (count + 1 + int n)) [1 ..< Suc k]"
          proof -
            have "[1 ..< Suc (Suc k)] = 1 # map Suc [1 ..< Suc k]"
              by (simp add: upt_conv_Cons map_Suc_upt del: upt_Suc)
            then show ?thesis by (simp add: comp_def add.assoc del: upt_Suc)
          qed
          show ?thesis
            using k eqs shift
            by (intro exI[of _ "Suc k"] exI[of _ final]) (auto simp del: upt_Suc)
        next
          case False
          with bad Inr still "1.prems"(2) have "msgs = [LimitExceeded]" "out = Returned" "c' = c1"
            by (subst (asm) unwrap.simps, simp)+
          with False "1.prems"(1) still show ?thesis
            by (intro exI[of _ 0] exI[of _ "[LimitExceeded]"]) auto
        qed
      qed
    qed
  qed
qed

subsection \<open>The examples, evaluated\<close>

lemma norm3_x: "norm3 (x, 0, 0) = \<bar>x\<bar>"
  by (simp add: norm3_def)

lemmas geometry_eval = check_bad_bonds_def distance_def vsub_def vadd_def vscale_def norm3_x
  is_outlier_def d_to_center_def avg_dist_def mean_vec_def mean_real_def v_distance_def
  default_tolerance_def pair_molecule_def triple_molecule_def

lemmas pass_eval = unwrap_pass_def find_outliers_def outlier_dict_def bond_dict_def graph_get_def
  List.union_def img_of_def img_axis_def box_unwrap_def

lemma two_atoms_bad: "check_bad_bonds default_tolerance two_atoms = [(0, 1)]"
  by (simp add: two_atoms_def geometry_eval)

lemma two_atoms_pass:
  "unwrap_pass pair_molecule two_atoms (check_bad_bonds default_tolerance two_atoms)
     = Inl (RuntimeError (0, 1))"
  unfolding two_atoms_bad by (simp add: two_atoms_def geometry_eval pass_eval)

lemma two_atoms_unwrap:
  "unwrap pair_molecule default_tolerance 0 two_atoms = (Raised (RuntimeError (0, 1)), two_atoms, [])"
  by (subst unwrap.simps) (simp add: two_atoms_pass, simp add: two_atoms_bad)

lemma three_atoms_bad: "check_bad_bonds default_tolerance three_atoms = [(0, 1)]"
  by (simp add: three_atoms_def geometry_eval)

lemma three_atoms_pass:
  "unwrap_pass triple_molecule three_atoms (check_bad_bonds default_tolerance three_atoms)
     = Inr three_atoms_repaired"
  unfolding three_atoms_bad
  by (simp add: three_atoms_def three_atoms_repaired_def geometry_eval pass_eval)

lemma three_atoms_after: "check_bad_bonds default_tolerance three_atoms_repaired = []"
  by (simp add: three_atoms_repaired_def geometry_eval)

lemma three_atoms_unwrap:
  "unwrap triple_molecule default_tolerance 0 three_atoms = (Returned, three_atoms_repaired, [])"
  by (subst unwrap.simps) (simp add: three_atoms_pass three_atoms_after, simp add: three_atoms_bad)

lemma no_box_bad: "check_bad_bonds default_tolerance three_atoms_no_box = [(0, 1)]"
  by (simp add: three_atoms_no_box_def geometry_eval)

lemma no_box_pass:
  "unwrap_pass triple_molecule three_atoms_no_box (check_bad_bonds default_tolerance three_atoms_no_box)
     = Inl TypeError"
  unfolding no_box_bad by (simp add: three_atoms_no_box_def geometry_eval pass_eval)

lemma no_box_unwrap:
  "unwrap triple_molecule default_tolerance 0 three_atoms_no_box = (Raised TypeError, three_atoms_no_box, [])"
  by (subst unwrap.simps) (simp add: no_box_pass, simp add: no_box_bad)

lemma stretched_bad: "check_bad_bonds default_tolerance stretched = [(0, 1), (1, 2)]"
  by (simp add: stretched_def geometry_eval)

lemma stretched_pass:
  "unwrap_pass triple_molecule stretched (check_bad_bonds default_tolerance stretched) = Inr stretched"
  unfolding stretched_bad by (simp add: stretched_def geometry_eval pass_eval)

lemma stretched_step:
  "unwrap triple_molecule default_tolerance count stretched =
     (if count < 5 then
        (case unwrap triple_molecule default_tolerance (count + 1) stretched of
           (out, c'', msgs) \<Rightarrow> (out, c'', TryingAgain (count + 1) # msgs))
      else (Returned, stretched, [LimitExceeded]))"
  by (subst unwrap.simps) (simp add: stretched_pass, simp add: stretched_bad)

lemma stretched_unwrap: "unwrap triple_molecule default_tolerance 0 stretched =
   (Returned, stretched, [TryingAgain 1, TryingAgain 2, TryingAgain 3, TryingAgain 4, TryingAgain 5, LimitExceeded])"
proof -
  have 5: "unwrap triple_molecule default_tolerance 5 stretched = (Returned, stretched, [LimitExceeded])"
    by (subst stretched_step) simp
  have 4: "unwrap triple_molecule default_tolerance 4 stretched = (Returned, stretched, [TryingAgain 5, LimitExceeded])"
    by (subst stretched_step) (simp add: 5)
  have 3: "unwrap triple_molecule default_tolerance 3 stretched = (Returned, stretched, [TryingAgain 4, TryingAgain 5, LimitExceeded])"
    by (subst stretched_step) (simp add: 4)
  have 2: "unwrap triple_molecule default_tolerance 2 stretched = (Returned, stretched, [TryingAgain 3, TryingAgain 4, TryingAgain 5, LimitExceeded])"
    by (subst stretched_step) (simp add: 3)
  have 1: "unwrap triple_molecule default_tolerance 1 stretched = (Returned, stretched, [TryingAgain 2, TryingAgain 3, TryingAgain 4, TryingAgain 5, LimitExceeded])"
    by (subst stretched_step) (simp add: 2)
  show ?thesis
    by (subst stretched_step) (simp add: 1)
qed

lemma wrap_no_box: "box c = None \<Longrightarrow> wrap c = (c, [CantWrap])"
  by (simp add: wrap_def)

text \<open>
  C3: \<^verbatim>\<open>unwrap\<close>, called with its counter at 0, returns after at most five retries,
  that is at most six passes: its messages are the announcements of the retries
  \<open>1, \<dots>, k\<close> with \<open>k \<le> 5\<close>, followed by at most one final message, and the final
  message is that the limit is exceeded only after the fifth retry, when the call
  returns with bad bonds still present.  When bad bonds remain after a pass, the call
  with a counter below 5 is the call with the counter incremented on the compound as
  the pass left it, and the call with the counter at the limit returns that compound
  with the message that the limit is exceeded.
\<close>

theorem unwrap_at_most_six_passes:
  "(\<exists>out c' k final. unwrap molecules d_tolerance 0 c =
        (out, c', map (\<lambda>n. TryingAgain (int n)) [1 ..< Suc k] @ final)
      \<and> k \<le> 5 \<and> final \<in> {[], [NoBondsLonger], [LimitExceeded]}
      \<and> (final = [LimitExceeded] \<longrightarrow>
            k = 5 \<and> out = Returned \<and> check_bad_bonds d_tolerance c' \<noteq> []))
   \<and> (check_bad_bonds d_tolerance c \<noteq> []
        \<and> unwrap_pass molecules c (check_bad_bonds d_tolerance c) = Inr c1
        \<and> check_bad_bonds d_tolerance c1 \<noteq> [] \<longrightarrow>
        unwrap molecules d_tolerance count c =
          (if count < 5 then
             (case unwrap molecules d_tolerance (count + 1) c1 of
                (out, c2, msgs) \<Rightarrow> (out, c2, TryingAgain (count + 1) # msgs))
           else (Returned, c1, [LimitExceeded])))"
proof (intro conjI impI)
  obtain out c' msgs where run: "unwrap molecules d_tolerance 0 c = (out, c', msgs)"
    by (cases "unwrap molecules d_tolerance 0 c")
  from unwrap_messages[OF _ run] obtain k final where
    "int k \<le> 5 - 0" "msgs = map (\<lambda>n. TryingAgain (0 + int n)) [1 ..< Suc k] @ final"
    "final \<in> {[], [NoBondsLonger], [LimitExceeded]}"
    "final = [LimitExceeded] \<longrightarrow> int k = 5 - 0 \<and> out = Returned \<and> check_bad_bonds d_tolerance c' \<noteq> []"
    by auto
  with run show "\<exists>out c' k final. unwrap molecules d_tolerance 0 c =
        (out, c', map (\<lambda>n. TryingAgain (int n)) [1 ..< Suc k] @ final)
      \<and> k \<le> 5 \<and> final \<in> {[], [NoBondsLonger], [LimitExceeded]}
      \<and> (final = [LimitExceeded] \<longrightarrow>
            k = 5 \<and> out = Returned \<and> check_bad_bonds d_tolerance c' \<noteq> [])"
    by (intro exI[of _ out] exI[of _ c'] exI[of _ k] exI[of _ final]) (simp del: upt_Suc)
next
  assume "check_bad_bonds d_tolerance c \<noteq> []
        \<and> unwrap_pass molecules c (check_bad_bonds d_tolerance c) = Inr c1
        \<and> check_bad_bonds d_tolerance c1 \<noteq> []"
  then show "unwrap molecules d_tolerance count c =
          (if count < 5 then
             (case unwrap molecules d_tolerance (count + 1) c1 of
                (out, c2, msgs) \<Rightarrow> (out, c2, TryingAgain (count + 1) # msgs))
           else (Returned, c1, [LimitExceeded]))"
    by (subst unwrap.simps) simp
qed

theorem unwrap_at_most_six_passes_witness:
  "check_bad_bonds default_tolerance stretched \<noteq> []
   \<and> unwrap_pass triple_molecule stretched (check_bad_bonds default_tolerance stretched) = Inr stretched
   \<and> unwrap triple_molecule default_tolerance 5 stretched = (Returned, stretched, [LimitExceeded])
   \<and> unwrap triple_molecule default_tolerance 0 stretched =
       (Returned, stretched,
        [TryingAgain 1, TryingAgain 2, TryingAgain 3, TryingAgain 4, TryingAgain 5, LimitExceeded])"
  using unwrap_at_most_six_passes [of triple_molecule default_tolerance stretched stretched 5]
    stretched_unwrap stretched_pass stretched_bad
  by simp

text \<open>
  C8: when a call of \<^verbatim>\<open>unwrap\<close> has returned without the message that the limit is
  exceeded, no bond of the compound it leaves is longer than the tolerance, and a
  second call with the same tolerance reports that no bond is longer and returns
  the compound as it is.
\<close>

theorem unwrap_idempotent:
  "unwrap molecules d_tolerance count c = (Returned, c', msgs) \<and> LimitExceeded \<notin> set msgs \<longrightarrow>
     check_bad_bonds d_tolerance c' = []
     \<and> unwrap molecules d_tolerance count' c' = (Returned, c', [NoBondsLonger])"
  using unwrap_success_no_bad_bonds unwrap_no_bad_bonds by blast

theorem unwrap_idempotent_witness:
  "unwrap triple_molecule default_tolerance 0 three_atoms = (Returned, three_atoms_repaired, [])
   \<and> LimitExceeded \<notin> set []
   \<and> check_bad_bonds default_tolerance three_atoms_repaired = []
   \<and> unwrap triple_molecule default_tolerance 0 three_atoms_repaired =
       (Returned, three_atoms_repaired, [NoBondsLonger])"
  using unwrap_idempotent [of triple_molecule default_tolerance 0 three_atoms three_atoms_repaired "[]" 0]
    three_atoms_unwrap
  by simp

text \<open>
  C9 at a compound without a box: \<^verbatim>\<open>wrap\<close> reports that it cannot wrap and leaves
  the compound as it is, and \<^verbatim>\<open>unwrap\<close> on the same compound, whose bond from the
  first to the second particle is longer than the tolerance, ends with the
  \<^verbatim>\<open>TypeError\<close> that the construction of the box raises.
\<close>

theorem unwrap_without_box_raises:
  "box three_atoms_no_box = None
   \<and> wrap three_atoms_no_box = (three_atoms_no_box, [CantWrap])
   \<and> unwrap triple_molecule default_tolerance 0 three_atoms_no_box =
       (Raised TypeError, three_atoms_no_box, [])"
proof (intro conjI)
  show nb: "box three_atoms_no_box = None"
    by (simp add: three_atoms_no_box_def)
  show "wrap three_atoms_no_box = (three_atoms_no_box, [CantWrap])"
    using nb by (rule wrap_no_box)
  show "unwrap triple_molecule default_tolerance 0 three_atoms_no_box =
       (Raised TypeError, three_atoms_no_box, [])"
    by (rule no_box_unwrap)
qed

section \<open>Classification of the ends of a bad bond\<close>

text \<open>
  The loops with parameters are the loops of the model: with the exact results of
  \<^const>\<open>is_outlier\<close> and \<^const>\<open>d_to_center\<close> for the measurements, and with
  \<^const>\<open>check_bad_bonds\<close>, \<^const>\<open>find_outliers\<close> and \<^const>\<open>relocate_outliers\<close>
  for the phases, they are \<^const>\<open>classify\<close>, \<^const>\<open>find_outliers\<close> and
  \<^const>\<open>unwrap\<close>.
\<close>

lemma classify_is_classify_with:
  "classify molecules ps bad st =
     classify_with (is_outlier molecules ps) (d_to_center molecules ps) bad st"
proof (induction bad arbitrary: st)
  case Nil
  then show ?case by (cases st) simp
next
  case (Cons tup rest)
  obtain outliers checked where st: "st = (outliers, checked)" by (cases st)
  show ?case
    unfolding st
    by (cases "is_outlier molecules ps (fst tup)"; cases "is_outlier molecules ps (snd tup)";
        cases "d_to_center molecules ps (fst tup)"; cases "d_to_center molecules ps (snd tup)")
       (simp_all add: Cons.IH)
qed

lemma find_outliers_is_find_outliers_with:
  "find_outliers molecules c bad =
     find_outliers_with (is_outlier molecules (xyz c)) (d_to_center molecules (xyz c)) (bond_dict c) bad"
  by (simp add: find_outliers_def find_outliers_with_def classify_is_classify_with)

lemma unwrap_pass_phases:
  "unwrap_pass molecules c bad =
     (case find_outliers molecules c bad of
        Inl e \<Rightarrow> Inl e
      | Inr outliers \<Rightarrow> relocate_outliers molecules c outliers)"
  by (simp add: unwrap_pass_def relocate_outliers_def split: sum.splits)

lemma unwrap_is_unwrap_with:
  "unwrap molecules d_tolerance count c =
     unwrap_with (check_bad_bonds d_tolerance) (find_outliers molecules)
       (relocate_outliers molecules) count c"
proof (induction molecules d_tolerance count c rule: unwrap.induct)
  case (1 molecules d_tolerance count c)
  show ?case
    apply (subst unwrap.simps)
    apply (subst unwrap_with.simps)
    apply (simp add: unwrap_pass_phases split: sum.splits)
    apply (intro conjI allI impI)
    using "1.IH"
    apply (simp add: unwrap_pass_phases)
    done
qed










section \<open>Relocation of the outliers\<close>

lemma graph_get_graph_add:
  "graph_get (graph_add g k v) k' = (if k' = k then List.insert v (graph_get g k) else graph_get g k')"
  by (induction g k v rule: graph_add.induct) (auto simp: graph_get_def)

lemma graph_add_distinct_keys:
  "distinct (map fst g) \<Longrightarrow> distinct (map fst (graph_add g k v))"
proof (induction g k v rule: graph_add.induct)
  case (1 k v)
  then show ?case by simp
next
  case (2 k' vs g k v)
  then show ?case
    using graph_add_keys[of g k v] by (auto simp: image_iff)
qed

lemma graph_add_entries:
  "(k', os) \<in> set (graph_add g k v) \<Longrightarrow>
     (k', os) \<in> set g \<or> (k' = k \<and> (os = [v] \<or> (\<exists>vs. (k, vs) \<in> set g \<and> os = List.insert v vs)))"
  by (induction g k v rule: graph_add.induct) (auto split: if_splits)

lemma graph_get_entry:
  "distinct (map fst g) \<Longrightarrow> (k, os) \<in> set g \<Longrightarrow> graph_get g k = os"
  by (simp add: graph_get_def)

lemma graph_get_nonempty_entry:
  "graph_get g k \<noteq> [] \<Longrightarrow> (k, graph_get g k) \<in> set g"
  by (cases "map_of g k") (auto simp: graph_get_def dest: map_of_SomeD)

lemma outlier_dict_step_ok:
  assumes "entries_ok molecules d"
  shows "entries_ok molecules
     (case [i \<leftarrow> [0 ..< length molecules]. outlier \<in> set (molecules ! i)] of
        [] \<Rightarrow> d | mol_ind # others \<Rightarrow> graph_add d mol_ind outlier)"
proof (cases "[i \<leftarrow> [0 ..< length molecules]. outlier \<in> set (molecules ! i)]")
  case Nil
  with assms show ?thesis by simp
next
  case (Cons k others)
  then have "k \<in> set [i \<leftarrow> [0 ..< length molecules]. outlier \<in> set (molecules ! i)]" by simp
  then have k: "k < length molecules" by simp
  have "entries_ok molecules (graph_add d k outlier)"
    unfolding entries_ok_def
  proof (intro conjI ballI)
    show "distinct (map fst (graph_add d k outlier))"
      using assms by (simp add: entries_ok_def graph_add_distinct_keys)
  next
    fix e assume e: "e \<in> set (graph_add d k outlier)"
    obtain k' os where eq: "e = (k', os)" by (cases e)
    have old: "k'' < length molecules \<and> distinct vs \<and> vs \<noteq> []" if "(k'', vs) \<in> set d" for k'' vs
      using assms that by (auto simp: entries_ok_def)
    have ins: "distinct (List.insert outlier vs) \<and> List.insert outlier vs \<noteq> []" if "distinct vs" for vs
      using that by (auto simp: List.insert_def)
    from graph_add_entries[OF e[unfolded eq]]
    have "k' < length molecules \<and> distinct os \<and> os \<noteq> []"
      using old ins k by (elim disjE conjE exE) auto
    then show "case e of (k, os) \<Rightarrow> k < length molecules \<and> distinct os \<and> os \<noteq> []"
      unfolding eq by simp
  qed
  with Cons show ?thesis by simp
qed

lemma outlier_dict_fold:
  assumes "entries_ok molecules d"
  shows "entries_ok molecules
           (fold (\<lambda>outlier d.
               case [i \<leftarrow> [0 ..< length molecules]. outlier \<in> set (molecules ! i)] of
                 [] \<Rightarrow> d | mol_ind # others \<Rightarrow> graph_add d mol_ind outlier) outliers d)
       \<and> (\<forall>k. set (graph_get (fold (\<lambda>outlier d.
               case [i \<leftarrow> [0 ..< length molecules]. outlier \<in> set (molecules ! i)] of
                 [] \<Rightarrow> d | mol_ind # others \<Rightarrow> graph_add d mol_ind outlier) outliers d) k)
            = set (graph_get d k) \<union>
              {outlier \<in> set outliers. \<exists>others.
                 [i \<leftarrow> [0 ..< length molecules]. outlier \<in> set (molecules ! i)] = k # others})"
  using assms
proof (induction outliers arbitrary: d)
  case Nil
  then show ?case by simp
next
  case (Cons outlier outliers)
  let ?d1 = "case [i \<leftarrow> [0 ..< length molecules]. outlier \<in> set (molecules ! i)] of
        [] \<Rightarrow> d | mol_ind # others \<Rightarrow> graph_add d mol_ind outlier"
  have ok1: "entries_ok molecules ?d1" by (rule outlier_dict_step_ok[OF Cons.prems])
  have get1: "set (graph_get ?d1 k) = set (graph_get d k) \<union>
      (if \<exists>others. [i \<leftarrow> [0 ..< length molecules]. outlier \<in> set (molecules ! i)] = k # others
       then {outlier} else {})" for k
  proof -
    define f where "f = [i \<leftarrow> [0 ..< length molecules]. outlier \<in> set (molecules ! i)]"
    have "set (graph_get (case f of [] \<Rightarrow> d | mol_ind # others \<Rightarrow> graph_add d mol_ind outlier) k)
        = set (graph_get d k) \<union> (if \<exists>others. f = k # others then {outlier} else {})"
      by (cases f) (auto simp: graph_get_graph_add)
    then show ?thesis unfolding f_def .
  qed
  from Cons.IH[OF ok1] get1 show ?case by (simp del: upt_Suc) blast
qed

lemma first_molecule:
  assumes "disjoint_molecules molecules" "k < length molecules"
  shows "(\<exists>others. [i \<leftarrow> [0 ..< length molecules]. outlier \<in> set (molecules ! i)] = k # others)
     \<longleftrightarrow> outlier \<in> set (molecules ! k)"
proof
  assume "\<exists>others. [i \<leftarrow> [0 ..< length molecules]. outlier \<in> set (molecules ! i)] = k # others"
  then obtain others where
    eq: "[i \<leftarrow> [0 ..< length molecules]. outlier \<in> set (molecules ! i)] = k # others" by blast
  have "k \<in> set (k # others)" by simp
  then have "k \<in> set [i \<leftarrow> [0 ..< length molecules]. outlier \<in> set (molecules ! i)]"
    unfolding eq .
  then show "outlier \<in> set (molecules ! k)" by simp
next
  assume in_k: "outlier \<in> set (molecules ! k)"
  let ?f = "[i \<leftarrow> [0 ..< length molecules]. outlier \<in> set (molecules ! i)]"
  from in_k assms(2) have "k \<in> set ?f" by simp
  then obtain j others where f: "?f = j # others" by (cases ?f) auto
  then have "j \<in> set ?f" by simp
  then have j: "j < length molecules" "outlier \<in> set (molecules ! j)" by simp_all
  have "j = k"
  proof (rule ccontr)
    assume "j \<noteq> k"
    with assms j have "set (molecules ! j) \<inter> set (molecules ! k) = {}"
      by (simp add: disjoint_molecules_def)
    with j in_k show False by auto
  qed
  with f show "\<exists>others. ?f = k # others" by simp
qed

lemma outlier_dict_props:
  assumes "disjoint_molecules molecules"
  shows "distinct (map fst (outlier_dict molecules outliers))
     \<and> (\<forall>(k, os) \<in> set (outlier_dict molecules outliers).
           k < length molecules \<and> distinct os \<and> set os = set outliers \<inter> set (molecules ! k))
     \<and> (\<forall>k < length molecules. set (graph_get (outlier_dict molecules outliers) k)
           = set outliers \<inter> set (molecules ! k))"
proof -
  have ok0: "entries_ok molecules []" by (simp add: entries_ok_def)
  from outlier_dict_fold[OF ok0, of outliers]
  have ok: "entries_ok molecules (outlier_dict molecules outliers)"
    and get: "\<And>k. set (graph_get (outlier_dict molecules outliers) k) =
       {outlier \<in> set outliers. \<exists>others.
          [i \<leftarrow> [0 ..< length molecules]. outlier \<in> set (molecules ! i)] = k # others}"
    by (simp_all add: outlier_dict_def graph_get_def)
  have get': "set (graph_get (outlier_dict molecules outliers) k) = set outliers \<inter> set (molecules ! k)"
    if "k < length molecules" for k
    unfolding get using first_molecule[OF assms that] by auto
  have ent: "k < length molecules \<and> distinct os \<and> set os = set outliers \<inter> set (molecules ! k)"
    if "(k, os) \<in> set (outlier_dict molecules outliers)" for k os
  proof -
    from ok that have k: "k < length molecules" and d: "distinct os"
      by (auto simp: entries_ok_def)
    from ok that have "graph_get (outlier_dict molecules outliers) k = os"
      by (auto simp: entries_ok_def intro: graph_get_entry)
    with get'[OF k] k d show ?thesis by simp
  qed
  from ok ent get' show ?thesis by (auto simp: entries_ok_def)
qed

lemma move_outliers_length: "length (move_outliers L avg os ps) = length ps"
  by (induction os arbitrary: ps) simp_all

lemma move_outliers_other: "q \<notin> set os \<Longrightarrow> move_outliers L avg os ps ! q = ps ! q"
  by (induction os arbitrary: ps) auto

lemma move_outliers_moved:
  "distinct os \<Longrightarrow> p \<in> set os \<Longrightarrow> p < length ps \<Longrightarrow>
   move_outliers L avg os ps ! p = box_unwrap L (ps ! p) (img_of L avg (ps ! p))"
proof (induction os arbitrary: ps)
  case Nil
  then show ?case by simp
next
  case (Cons a os)
  show ?case
  proof (cases "p = a")
    case True
    with Cons.prems have "p \<notin> set os" by simp
    with True Cons.prems(3) show ?thesis by (simp add: move_outliers_other)
  next
    case False
    with Cons.prems have "p \<in> set os" "distinct os" by simp_all
    with Cons.IH[of "ps[a := box_unwrap L (ps ! a) (img_of L avg (ps ! a))]"] Cons.prems(3) False
    show ?thesis by simp
  qed
qed


lemma relocate_entries:
  assumes "disjoint_molecules molecules"
    and "distinct (map fst es)"
    and "\<forall>(k, os) \<in> set es. k < length molecules \<and> distinct os \<and> set os \<subseteq> set (molecules ! k)"
  shows "\<exists>ps'. relocate molecules (Some L) es ps = Inr ps'
     \<and> (\<forall>q. (\<forall>(k, os) \<in> set es. q \<notin> set os) \<longrightarrow> ps' ! q = ps ! q)
     \<and> (\<forall>(k, os) \<in> set es. \<forall>p \<in> set os. p < length ps \<longrightarrow>
           ps' ! p = box_unwrap L (ps ! p)
             (img_of L (mean_vec (map ((!) ps) [i \<leftarrow> molecules ! k. i \<notin> set os])) (ps ! p)))"
  using assms(2,3)
proof (induction es arbitrary: ps)
  case Nil
  then show ?case by simp
next
  case (Cons e es)
  obtain k os where e: "e = (k, os)" by (cases e)
  let ?avg = "mean_vec (map ((!) ps) [i \<leftarrow> molecules ! k. i \<notin> set os])"
  let ?ps1 = "move_outliers L ?avg os ps"
  from Cons.prems e have k: "k < length molecules" "distinct os" "set os \<subseteq> set (molecules ! k)"
    and keys: "distinct (map fst es)" "k \<notin> fst ` set es"
    and rest: "\<forall>(k, os) \<in> set es. k < length molecules \<and> distinct os \<and> set os \<subseteq> set (molecules ! k)"
    by auto
  from Cons.IH[OF keys(1) rest, of ?ps1] obtain ps' where
    run: "relocate molecules (Some L) es ?ps1 = Inr ps'"
    and same: "\<And>q. (\<forall>(k, os) \<in> set es. q \<notin> set os) \<Longrightarrow> ps' ! q = ?ps1 ! q"
    and moved: "\<And>k' os' p. (k', os') \<in> set es \<Longrightarrow> p \<in> set os' \<Longrightarrow> p < length ?ps1 \<Longrightarrow>
           ps' ! p = box_unwrap L (?ps1 ! p)
             (img_of L (mean_vec (map ((!) ?ps1) [i \<leftarrow> molecules ! k'. i \<notin> set os'])) (?ps1 ! p))"
    by (auto simp: Ball_def)
  have apart: "set (molecules ! k') \<inter> set (molecules ! k) = {}" if "(k', os') \<in> set es" for k' os'
  proof -
    from that keys(2) have "k' \<noteq> k" by force
    moreover from that rest have "k' < length molecules" by auto
    ultimately show ?thesis using assms(1) k(1) by (simp add: disjoint_molecules_def)
  qed
  have run0: "relocate molecules (Some L) (e # es) ps = Inr ps'"
    using run by (simp add: e Let_def)
  have c1: "ps' ! q = ps ! q" if "\<forall>(k, os) \<in> set (e # es). q \<notin> set os" for q
  proof -
    from that e have "q \<notin> set os" "\<forall>(k, os) \<in> set es. q \<notin> set os" by auto
    with same[of q] show ?thesis by (simp add: move_outliers_other)
  qed
  have c2: "ps' ! p = box_unwrap L (ps ! p)
             (img_of L (mean_vec (map ((!) ps) [i \<leftarrow> molecules ! k'. i \<notin> set os'])) (ps ! p))"
    if mem: "(k', os') \<in> set (e # es)" and p: "p \<in> set os'" "p < length ps" for k' os' p
  proof (cases "(k', os') = (k, os)")
    case True
    have "\<forall>(k'', os'') \<in> set es. p \<notin> set os''"
    proof (clarify)
      fix k'' os'' assume in_es: "(k'', os'') \<in> set es" and "p \<in> set os''"
      with rest have "p \<in> set (molecules ! k'')" by auto
      moreover from True p k have "p \<in> set (molecules ! k)" by auto
      ultimately show False using apart[OF in_es] by auto
    qed
    from same[OF this] True p k show ?thesis
      by (simp add: move_outliers_moved)
  next
    case False
    with mem e have in_es: "(k', os') \<in> set es" by auto
    with rest have sub': "set os' \<subseteq> set (molecules ! k')" by auto
    have not_os: "i \<notin> set os" if "i \<in> set (molecules ! k')" for i
      using apart[OF in_es] k(3) that by auto
    from p sub' have "p \<notin> set os" using not_os by auto
    then have p1: "?ps1 ! p = ps ! p" by (rule move_outliers_other)
    have "map ((!) ?ps1) [i \<leftarrow> molecules ! k'. i \<notin> set os']
        = map ((!) ps) [i \<leftarrow> molecules ! k'. i \<notin> set os']"
      by (rule map_cong[OF refl]) (auto simp: move_outliers_other not_os)
    with moved[OF in_es p(1)] p(2) p1 show ?thesis
      by (simp add: move_outliers_length)
  qed
  show ?case
    using run0 c1 c2 by (intro exI[of _ ps']) (auto simp: Ball_def)
qed


lemma img_axis_positive_box:
  "0 < L \<Longrightarrow> img_axis d L = (if d > L / 2 then 1 else if d < - L / 2 then - 1 else 0)"
  by (auto simp: img_axis_def)

lemma three_atoms_find_outliers:
  "find_outliers triple_molecule three_atoms (check_bad_bonds default_tolerance three_atoms) = Inr [1]"
  unfolding three_atoms_bad by (simp add: three_atoms_def geometry_eval pass_eval)

lemma triple_molecule_disjoint: "disjoint_molecules triple_molecule"
  by (simp add: disjoint_molecules_def triple_molecule_def)

text \<open>
  The two-atom molecule with atoms at \<open>(0.1, 0, 0)\<close> and \<open>(9.9, 0, 0)\<close> in a cubic box
  of side 10, with the default tolerance 0.22, which is below 9.8: both atoms test as
  outliers at the same distance from the centre, \<^verbatim>\<open>unwrap\<close> raises the
  \<^verbatim>\<open>RuntimeError\<close> of the classification, and the second atom stays at
  \<open>(9.9, 0, 0)\<close>.
\<close>

theorem two_atom_molecule_not_repaired:
  "default_tolerance < 98 / 10
   \<and> unwrap pair_molecule default_tolerance 0 two_atoms = (Raised (RuntimeError (0, 1)), two_atoms, [])
   \<and> xyz two_atoms ! 1 = (99 / 10, 0, 0)"
  using two_atoms_unwrap by (simp add: two_atoms_def default_tolerance_def)

text \<open>
  C1, as the code has it: let the molecules be pairwise disjoint, the box be set with
  positive lengths, and the classification of a pass succeed.  Then the pass succeeds,
  and it moves every outlier \<open>p\<close> of a molecule whose other particles have the centre
  \<open>c\<close> (the mean position of the particles of the molecule that are not outliers) to
  its position plus, on every axis, the box length times the image \<open>+1\<close> if \<open>c - p\<close>
  exceeds half the box length, \<open>-1\<close> if it is below minus half the box length, and
  \<open>0\<close> otherwise.  The particles that are not outliers, the bonds and the box stay as
  they are.  An instance is the molecule of three atoms at \<open>(0.1, 0, 0)\<close>,
  \<open>(9.9, 0, 0)\<close> and \<open>(0.3, 0, 0)\<close>, whose second atom is moved to \<open>(-0.1, 0, 0)\<close>.
\<close>

theorem unwrap_pass_relocates_outliers:
  assumes "disjoint_molecules molecules"
    and "box c = Some (Lx, Ly, Lz)" and "0 < Lx" and "0 < Ly" and "0 < Lz"
    and "find_outliers molecules c maybe_outliers = Inr outliers"
    and "k < length molecules" and "p \<in> set (molecules ! k)" and "p \<in> set outliers"
    and "p < length (xyz c)"
    and "mean_vec (map ((!) (xyz c)) [i \<leftarrow> molecules ! k. i \<notin> set outliers]) = Some (cx, cy, cz)"
    and "xyz c ! p = (px, py, pz)"
  shows "\<exists>c'. unwrap_pass molecules c maybe_outliers = Inr c'
     \<and> xyz c' ! p =
         (px + real_of_int (if cx - px > Lx / 2 then 1 else if cx - px < - Lx / 2 then - 1 else 0) * Lx,
          py + real_of_int (if cy - py > Ly / 2 then 1 else if cy - py < - Ly / 2 then - 1 else 0) * Ly,
          pz + real_of_int (if cz - pz > Lz / 2 then 1 else if cz - pz < - Lz / 2 then - 1 else 0) * Lz)
     \<and> (\<forall>q. q \<notin> set outliers \<longrightarrow> xyz c' ! q = xyz c ! q)
     \<and> bonds c' = bonds c \<and> box c' = box c"
proof -
  let ?od = "outlier_dict molecules outliers"
  let ?L = "(Lx, Ly, Lz)"
  from outlier_dict_props[OF assms(1), of outliers]
  have keys: "distinct (map fst ?od)"
    and ent: "\<And>k os. (k, os) \<in> set ?od \<Longrightarrow>
        k < length molecules \<and> distinct os \<and> set os = set outliers \<inter> set (molecules ! k)"
    and get: "\<And>k. k < length molecules \<Longrightarrow>
        set (graph_get ?od k) = set outliers \<inter> set (molecules ! k)"
    by auto
  have ent': "\<forall>(k, os) \<in> set ?od. k < length molecules \<and> distinct os \<and> set os \<subseteq> set (molecules ! k)"
    using ent by auto
  from relocate_entries[OF assms(1) keys ent', of ?L "xyz c"] obtain ps' where
    run: "relocate molecules (Some ?L) ?od (xyz c) = Inr ps'"
    and same: "\<And>q. (\<forall>(k, os) \<in> set ?od. q \<notin> set os) \<Longrightarrow> ps' ! q = xyz c ! q"
    and moved: "\<And>k os p. (k, os) \<in> set ?od \<Longrightarrow> p \<in> set os \<Longrightarrow> p < length (xyz c) \<Longrightarrow>
           ps' ! p = box_unwrap ?L (xyz c ! p)
             (img_of ?L (mean_vec (map ((!) (xyz c)) [i \<leftarrow> molecules ! k. i \<notin> set os])) (xyz c ! p))"
    by (auto simp: Ball_def)
  let ?os = "graph_get ?od k"
  from get[OF assms(7)] assms(8,9) have p_os: "p \<in> set ?os" by simp
  then have "?os \<noteq> []" by auto
  then have entry: "(k, ?os) \<in> set ?od" by (rule graph_get_nonempty_entry)
  have anchor: "[i \<leftarrow> molecules ! k. i \<notin> set ?os] = [i \<leftarrow> molecules ! k. i \<notin> set outliers]"
    using get[OF assms(7)] by (intro filter_cong) auto
  have pos: "ps' ! p = box_unwrap ?L (px, py, pz) (img_of ?L (Some (cx, cy, cz)) (px, py, pz))"
    using moved[OF entry p_os assms(10)] unfolding anchor assms(11) assms(12) .
  have still: "ps' ! q = xyz c ! q" if "q \<notin> set outliers" for q
  proof (rule same, clarify)
    fix k' os' assume "(k', os') \<in> set ?od" "q \<in> set os'"
    with ent[of k' os'] that show False by auto
  qed
  have pass: "unwrap_pass molecules c maybe_outliers = Inr (c\<lparr>xyz := ps'\<rparr>)"
    using assms(6) assms(2) run by (simp add: unwrap_pass_def)
  show ?thesis
    unfolding pass
    using pos still assms(3,4,5)
    by (intro exI[of _ "c\<lparr>xyz := ps'\<rparr>"])
       (simp add: box_unwrap_def img_of_def vsub_def img_axis_positive_box)
qed

theorem unwrap_pass_relocates_outliers_witness:
  "disjoint_molecules triple_molecule
   \<and> box three_atoms = Some (10, 10, 10)
   \<and> find_outliers triple_molecule three_atoms (check_bad_bonds default_tolerance three_atoms) = Inr [1]
   \<and> (1 :: nat) \<in> set (triple_molecule ! 0)
   \<and> mean_vec (map ((!) (xyz three_atoms)) [i \<leftarrow> triple_molecule ! 0. i \<notin> set [1]]) = Some (1 / 5, 0, 0)
   \<and> xyz three_atoms ! 1 = (99 / 10, 0, 0)
   \<and> unwrap_pass triple_molecule three_atoms (check_bad_bonds default_tolerance three_atoms)
        = Inr three_atoms_repaired
   \<and> xyz three_atoms_repaired ! 1 = (- 1 / 10, 0, 0)
   \<and> unwrap triple_molecule default_tolerance 0 three_atoms = (Returned, three_atoms_repaired, [])"
proof -
  have b: "box three_atoms = Some (10, 10, 10)" by (simp add: three_atoms_def)
  have m: "(1 :: nat) \<in> set (triple_molecule ! 0)" by (simp add: triple_molecule_def)
  have k: "0 < length triple_molecule" by (simp add: triple_molecule_def)
  have o: "(1 :: nat) \<in> set [1]" by simp
  have l: "1 < length (xyz three_atoms)" by (simp add: three_atoms_def)
  have a: "mean_vec (map ((!) (xyz three_atoms)) [i \<leftarrow> triple_molecule ! 0. i \<notin> set [1]]) = Some (1 / 5, 0, 0)"
    by (simp add: three_atoms_def triple_molecule_def mean_vec_def vadd_def vscale_def)
  have x: "xyz three_atoms ! 1 = (99 / 10, 0, 0)" by (simp add: three_atoms_def)
  from unwrap_pass_relocates_outliers[OF triple_molecule_disjoint b _ _ _ three_atoms_find_outliers k m o l a x]
  have "\<exists>c'. unwrap_pass triple_molecule three_atoms (check_bad_bonds default_tolerance three_atoms) = Inr c'
      \<and> xyz c' ! 1 = (- 1 / 10, 0, 0)"
    by auto
  with three_atoms_pass have r: "xyz three_atoms_repaired ! 1 = (- 1 / 10, 0, 0)" by simp
  show ?thesis
    using triple_molecule_disjoint b three_atoms_find_outliers m a x three_atoms_pass r three_atoms_unwrap
    by simp
qed

end
